theory Spec2Isabelle
  imports Complex_Main
begin

section \<open>Data model of autoBuy.ts\<close>

text \<open>
  A JavaScript number is an IEEE 754 double. Every finite double is a rational, so
  numbers are values of \<^typ>\<open>rat\<close>, and every arithmetic operation of the source is the
  exact operation followed by rounding to the nearest double (\<open>toDouble\<close> below).
  \<^verbatim>\<open>NaN\<close>, the infinities, overflow and underflow to subnormal numbers are outside
  the model. The results of \<^verbatim>\<open>parseInt\<close> are of type \<^typ>\<open>int\<close>. Time is counted in
  milliseconds on a clock that starts when the entrypoint starts.
\<close>

subsection \<open>Rounding to double precision\<close>

text \<open>
  The unit in the last place of a positive number: the power of two \<open>q\<close> for which
  \<open>x / q\<close> lies between \<open>2 ^ 52\<close> and \<open>2 ^ 53\<close>, so that the doubles near \<open>x\<close>
  are the integer multiples of \<open>q\<close>. The recursion halves or doubles \<open>x\<close> until it
  lies in that range; \<open>ulpMeasure\<close> counts the steps that are left.
\<close>

definition ulpMeasure :: "rat \<Rightarrow> nat" where
  "ulpMeasure x = (if 2 ^ 52 \<le> x then nat \<lfloor>x / 2 ^ 52\<rfloor> else nat \<lceil>2 ^ 52 / x\<rceil> + 1)"

function ulpOf :: "rat \<Rightarrow> rat" where
  "ulpOf x =
     (if x \<le> 0 then 1
      else if 2 ^ 53 \<le> x then 2 * ulpOf (x / 2)
      else if x < 2 ^ 52 then ulpOf (2 * x) / 2
      else 1)"
  by pat_completeness auto

termination ulpOf
proof (relation "measure ulpMeasure")
  show "wf (measure ulpMeasure)" by simp
next
  fix x :: rat
  assume "\<not> x \<le> 0" and big: "2 ^ 53 \<le> x"
  have y: "2 \<le> x / 2 ^ 52" using big by (simp add: pos_le_divide_eq)
  have "of_int \<lfloor>x / 2 ^ 52 / 2\<rfloor> \<le> x / 2 ^ 52 / 2" by (rule of_int_floor_le)
  also have "\<dots> \<le> x / 2 ^ 52 - 1" using y by simp
  also have "\<dots> < of_int \<lfloor>x / 2 ^ 52\<rfloor>" by linarith
  finally have "\<lfloor>x / 2 ^ 52 / 2\<rfloor> < \<lfloor>x / 2 ^ 52\<rfloor>" by simp
  moreover have "0 < \<lfloor>x / 2 ^ 52\<rfloor>" using y by linarith
  moreover have "(2::rat) ^ 52 \<le> x / 2" "(2::rat) ^ 52 \<le> x" using big by simp_all
  ultimately have "ulpMeasure (x / 2) < ulpMeasure x" by (simp add: ulpMeasure_def)
  then show "(x / 2, x) \<in> measure ulpMeasure" by simp
next
  fix x :: rat
  assume "\<not> x \<le> 0" and "\<not> 2 ^ 53 \<le> x" and small: "x < 2 ^ 52"
  then have pos: "0 < x" by simp
  have "ulpMeasure (2 * x) < ulpMeasure x"
  proof (cases "2 ^ 52 \<le> 2 * x")
    case True
    have "2 * x / 2 ^ 52 < 2" using pos small by (simp add: pos_divide_less_eq)
    then have a: "\<lfloor>2 * x / 2 ^ 52\<rfloor> \<le> 1" by linarith
    have "1 < 2 ^ 52 / x" using pos small by (simp add: pos_less_divide_eq)
    then have b: "1 < \<lceil>2 ^ 52 / x\<rceil>" by linarith
    have "ulpMeasure (2 * x) = nat \<lfloor>2 * x / 2 ^ 52\<rfloor>"
      using True unfolding ulpMeasure_def by (rule if_P)
    moreover have "ulpMeasure x = nat \<lceil>2 ^ 52 / x\<rceil> + 1"
      using small unfolding ulpMeasure_def by (intro if_not_P) simp
    ultimately show ?thesis using a b by linarith
  next
    case False
    then have z: "2 < 2 ^ 52 / x" using pos small by (simp add: pos_less_divide_eq)
    have "of_int \<lceil>2 ^ 52 / x / 2\<rceil> < 2 ^ 52 / x / 2 + 1" by linarith
    also have "\<dots> \<le> 2 ^ 52 / x" using z by simp
    also have "\<dots> \<le> of_int \<lceil>2 ^ 52 / x\<rceil>" by (rule le_of_int_ceiling)
    finally have "\<lceil>2 ^ 52 / x / 2\<rceil> < \<lceil>2 ^ 52 / x\<rceil>" by simp
    moreover have "0 < \<lceil>2 ^ 52 / x\<rceil>" using pos small by (simp add: pos_less_divide_eq)
    ultimately show ?thesis using False pos small by (simp add: ulpMeasure_def)
  qed
  then show "(2 * x, x) \<in> measure ulpMeasure" by simp
qed

text \<open>Rounding to the nearest integer, ties to the even one.\<close>

definition roundHalfEven :: "rat \<Rightarrow> int" where
  "roundHalfEven y =
     (let f = \<lfloor>y\<rfloor>
      in if y - of_int f < 1 / 2 then f
         else if 1 / 2 < y - of_int f then f + 1
         else if even f then f else f + 1)"

text \<open>The double nearest to a rational (round to nearest, ties to even).\<close>

definition toDouble :: "rat \<Rightarrow> rat" where
  "toDouble x =
     (if x = 0 then 0
      else sgn x * (ulpOf \<bar>x\<bar> * of_int (roundHalfEven (\<bar>x\<bar> / ulpOf \<bar>x\<bar>))))"

subsection \<open>Wallets, configuration and constants\<close>

datatype error = Error string | TypeError string

record Wallet =
  publicKey :: string
  secretKey :: "nat list"

text \<open>
  The values read from the environment at module load (lines 34 to 56). The two amounts
  are results of \<^verbatim>\<open>parseFloat\<close>, that is doubles.
\<close>

record Config =
  CONTRACT_ADDRESS :: string
  WALLETS :: "Wallet list"
  MIN_DELAY :: int
  MAX_DELAY :: int
  MIN_BUY_AMOUNT_SOL :: rat
  MAX_BUY_AMOUNT_SOL :: rat

definition LAMPORTS_PER_SOL :: rat where
  "LAMPORTS_PER_SOL = 1000000000"

text \<open>The literal \<^verbatim>\<open>0.005\<close> denotes the double nearest to 5/1000.\<close>

definition FEE_BUFFER_SOL :: rat where
  "FEE_BUFFER_SOL = toDouble (5 / 1000)"

definition NATIVE_MINT :: string where
  "NATIVE_MINT = ''So11111111111111111111111111111111111111112''"

definition TOKEN_2022_PROGRAM_ID :: string where
  "TOKEN_2022_PROGRAM_ID = ''TokenzQdBNbLqP5VEhdkAS6EPFLC1PHnBqCXEpPxuEb''"

subsection \<open>The Raydium SDK handle\<close>

text \<open>
  Payloads that the program only passes from one SDK call to the next are opaque.
  Every SDK call may throw (or reject), so each returns \<open>error + result\<close>.
\<close>

datatype blob = Blob nat

record MintInfo =
  decimals :: nat
  programId :: string
  feeConfig :: "blob option"

record Routes =
  directPath :: "string list"
  routePaths :: blob

record RouteData =
  mintInfos :: "string \<rightharpoonup> MintInfo"
  ammPoolsRpcInfo :: blob
  ammSimulateCache :: "string \<rightharpoonup> blob"
  clmmPoolsRpcInfo :: blob
  computeClmmPoolInfo :: "string \<rightharpoonup> blob"
  computePoolTickData :: blob
  computeCpmmData :: "string \<rightharpoonup> blob"
  routePathDict :: blob

record SwapRoute =
  amountIn :: nat
  amountOut :: nat
  routeType :: string
  poolInfoList :: "string list"

record TokenArg =
  mint :: string
  tokenDecimals :: nat
  isToken2022 :: bool

record ApiV3Token =
  address :: string
  tokenProgramId :: string
  apiDecimals :: nat
  extensionsFeeConfig :: "blob option"

record ComputeArgs =
  inputToken :: TokenArg
  inputAmountRaw :: int
  directPathArg :: "blob option list"
  routePathDictArg :: blob
  simulateCache :: "string \<rightharpoonup> blob"
  tickCache :: blob
  mintInfosArg :: "string \<rightharpoonup> MintInfo"
  outputToken :: ApiV3Token
  chainTime :: int
  slippage :: rat
  epochInfo :: blob

record Sdk =
  fetchRoutePoolBasicInfo :: "error + blob"
  getAllRoute :: "string \<Rightarrow> string \<Rightarrow> blob \<Rightarrow> error + Routes"
  fetchSwapRoutesData :: "Routes \<Rightarrow> string \<Rightarrow> string \<Rightarrow> error + RouteData"
  chainTimeData :: "rat option"
  getEpochInfo :: "error + blob"
  getAllRouteComputeAmountOut :: "ComputeArgs \<Rightarrow> error + SwapRoute list"
  computePoolToPoolKeys :: "string list \<Rightarrow> blob \<Rightarrow> blob \<Rightarrow> error + blob"
  swap :: "SwapRoute \<Rightarrow> blob \<Rightarrow> error + blob"
  execute :: "blob \<Rightarrow> error + string list"

subsection \<open>The environment and the state of the process\<close>

text \<open>
  The external collaborators: the ledger answers a balance query issued at a given time
  with a number of lamports (which reaches the program as a double),
  every RPC round trip takes some time, \<^verbatim>\<open>Math.random()\<close> is a stream of draws,
  \<^verbatim>\<open>Raydium.load\<close> yields a handle or rejects.
\<close>

record Env =
  getBalance :: "nat \<Rightarrow> string \<Rightarrow> error + nat"
  rpcLatency :: "nat \<Rightarrow> nat"
  random :: "nat \<Rightarrow> rat"
  fromSecretKey :: "nat list \<Rightarrow> error + blob"
  raydiumLoad :: "error + Sdk"

datatype Line =
    Info string
  | BalancesHeader
  | BalanceLine string rat
  | BalancesFooter
  | Starting nat
  | SkipWarn string rat
  | WillBuy string rat int
  | Swapping string rat string
  | BestRoute nat nat string
  | SwapSuccessful string
  | TxLink string
  | BuyError string error
  | Fatal error

text \<open>
  A callback registered with \<^verbatim>\<open>setTimeout\<close>: the closure's wallet and amount, the
  time of the registration and the delay. The state below is the state of the main flow
  of the entrypoint; its clock advances at every \<^verbatim>\<open>await\<close> of a network call.
  Registered callbacks are recorded in \<open>timers\<close>; what a callback does when it fires
  is \<open>fireTimer\<close> below. How callbacks interleave with the main flow is not modelled.
\<close>

record Timer =
  registeredAt :: nat
  delayMs :: int
  buyer :: Wallet
  buyAmount :: rat

record World =
  clock :: nat
  draws :: nat
  console :: "Line list"
  timers :: "Timer list"
  raydium :: "Sdk option"
  exitCode :: "int option"

definition emit :: "Line \<Rightarrow> World \<Rightarrow> World" where
  "emit l w = w\<lparr>console := console w @ [l]\<rparr>"

text \<open>\<^verbatim>\<open>await connection.getBalance(pk)\<close>: the answer arrives after the round trip.\<close>

definition awaitGetBalance :: "Env \<Rightarrow> string \<Rightarrow> World \<Rightarrow> World \<times> (error + nat)" where
  "awaitGetBalance env pk w =
     (w\<lparr>clock := clock w + rpcLatency env (clock w)\<rparr>, getBalance env (clock w) pk)"

definition mathRandom :: "Env \<Rightarrow> World \<Rightarrow> World \<times> rat" where
  "mathRandom env w = (w\<lparr>draws := Suc (draws w)\<rparr>, random env (draws w))"

text \<open>
  Node's timers: a delay below 1 or above 2147483647 is set to 1; the callback cannot
  run before its due time.
\<close>

definition due :: "Timer \<Rightarrow> nat" where
  "due t = registeredAt t +
     nat (if delayMs t < 1 \<or> 2147483647 < delayMs t then 1 else delayMs t)"

definition setTimeout :: "Wallet \<Rightarrow> rat \<Rightarrow> int \<Rightarrow> World \<Rightarrow> World" where
  "setTimeout wallet amount d w =
     w\<lparr>timers := timers w @
        [\<lparr>registeredAt = clock w, delayMs = d, buyer = wallet, buyAmount = amount\<rparr>]\<rparr>"

section \<open>capBuyAmount (lines 103 to 112)\<close>

definition capBuyAmount :: "Env \<Rightarrow> Config \<Rightarrow> Wallet \<Rightarrow> rat \<Rightarrow> World \<Rightarrow> World \<times> (error + rat)" where
  "capBuyAmount env cfg wallet desiredAmountSOL w =
     (case awaitGetBalance env (publicKey wallet) w of
        (w', Inl e) \<Rightarrow> (w', Inl e)
      | (w', Inr balanceLamports) \<Rightarrow>
          (let balanceSOL = toDouble (toDouble (of_nat balanceLamports) / LAMPORTS_PER_SOL);
               maxAffordable = toDouble (balanceSOL - FEE_BUFFER_SOL)
           in if maxAffordable < MIN_BUY_AMOUNT_SOL cfg then (w', Inr 0)
              else (w', Inr (min desiredAmountSOL maxAffordable))))"

section \<open>initRaydium (lines 66 to 84) and displayWalletBalances (lines 89 to 98)\<close>

definition initRaydium :: "Env \<Rightarrow> Config \<Rightarrow> World \<Rightarrow> World \<times> (error + unit)" where
  "initRaydium env cfg w =
     (if length (WALLETS cfg) = 0
      then (w, Inl (Error ''No wallets available for initialization.''))
      else case fromSecretKey env (secretKey (WALLETS cfg ! 0)) of
          Inl e \<Rightarrow> (w, Inl e)
        | Inr owner \<Rightarrow>
           (let w' = w\<lparr>clock := clock w + rpcLatency env (clock w)\<rparr>
            in case raydiumLoad env of
                 Inl e \<Rightarrow> (w', Inl e)
               | Inr sdk \<Rightarrow>
                   (emit (Info ''Raydium SDK initialized successfully.'')
                      (w'\<lparr>raydium := Some sdk\<rparr>), Inr ())))"

text \<open>
  The balance line carries the quotient as the double it is; the rounding of
  \<^verbatim>\<open>toFixed(3)\<close> for display is not modelled.
\<close>

fun displayLoop :: "Env \<Rightarrow> Wallet list \<Rightarrow> World \<Rightarrow> World \<times> (error + unit)" where
  "displayLoop env [] w = (w, Inr ())"
| "displayLoop env (wallet # rest) w =
     (case awaitGetBalance env (publicKey wallet) w of
        (w', Inl e) \<Rightarrow> (w', Inl e)
      | (w', Inr lamports) \<Rightarrow>
          displayLoop env rest
            (emit (BalanceLine (publicKey wallet)
                     (toDouble (toDouble (of_nat lamports) / LAMPORTS_PER_SOL))) w'))"

definition displayWalletBalances :: "Env \<Rightarrow> Wallet list \<Rightarrow> World \<Rightarrow> World \<times> (error + unit)" where
  "displayWalletBalances env wallets w =
     (case displayLoop env wallets (emit BalancesHeader w) of
        (w', Inl e) \<Rightarrow> (w', Inl e)
      | (w', Inr u) \<Rightarrow> (emit BalancesFooter w', Inr ()))"

section \<open>performBuy (lines 117 to 243)\<close>

text \<open>\<^verbatim>\<open>Math.round\<close> rounds half up; its result is exact.\<close>

definition mathRound :: "rat \<Rightarrow> int" where
  "mathRound x = \<lfloor>x + 1 / 2\<rfloor>"

text \<open>\<^verbatim>\<open>a || b || c\<close> on three dictionary lookups: the first one that is defined.\<close>

definition firstDefined :: "RouteData \<Rightarrow> string \<Rightarrow> blob option" where
  "firstDefined rd pid =
     (case ammSimulateCache rd pid of
        Some a \<Rightarrow> Some a
      | None \<Rightarrow> (case computeClmmPoolInfo rd pid of
                   Some c \<Rightarrow> Some c
                 | None \<Rightarrow> computeCpmmData rd pid))"

text \<open>
  Steps 2 to 5 of the \<^verbatim>\<open>try\<close> block (lines 134 to 199): the route data and the routes
  with their simulated amounts. Reading \<^verbatim>\<open>programId\<close> of a missing entry of
  \<^verbatim>\<open>mintInfos\<close> is a \<^verbatim>\<open>TypeError\<close>; it is raised while the argument object is
  built, before the epoch info is awaited.
\<close>

definition fetchSwapRoutes :: "Sdk \<Rightarrow> Config \<Rightarrow> nat \<Rightarrow> int \<Rightarrow> error + RouteData \<times> SwapRoute list" where
  "fetchSwapRoutes sdk cfg now amountLamports =
     (let inputMint = NATIVE_MINT; outputMint = CONTRACT_ADDRESS cfg
      in case fetchRoutePoolBasicInfo sdk of
        Inl e \<Rightarrow> Inl e
      | Inr poolData \<Rightarrow>
      (case getAllRoute sdk inputMint outputMint poolData of
        Inl e \<Rightarrow> Inl e
      | Inr routes \<Rightarrow>
      (case fetchSwapRoutesData sdk routes inputMint outputMint of
        Inl e \<Rightarrow> Inl e
      | Inr routeData \<Rightarrow>
      (case mintInfos routeData outputMint of
        None \<Rightarrow> Inl (TypeError ''Cannot read properties of undefined (reading programId)'')
      | Some outInfo \<Rightarrow>
      (case getEpochInfo sdk of
        Inl e \<Rightarrow> Inl e
      | Inr epoch \<Rightarrow>
      (case getAllRouteComputeAmountOut sdk
              \<lparr>inputToken =
                 \<lparr>mint = inputMint,
                  tokenDecimals =
                    (case mintInfos routeData inputMint of
                       Some i \<Rightarrow> decimals i | None \<Rightarrow> 9),
                  isToken2022 =
                    (case mintInfos routeData inputMint of
                       Some i \<Rightarrow> programId i = TOKEN_2022_PROGRAM_ID | None \<Rightarrow> False)\<rparr>,
               inputAmountRaw = amountLamports,
               directPathArg = map (firstDefined routeData) (directPath routes),
               routePathDictArg = routePathDict routeData,
               simulateCache = ammSimulateCache routeData,
               tickCache = computePoolTickData routeData,
               mintInfosArg = mintInfos routeData,
               outputToken =
                 \<lparr>address = outputMint,
                  tokenProgramId = programId outInfo,
                  apiDecimals = decimals outInfo,
                  extensionsFeeConfig = feeConfig outInfo\<rparr>,
               chainTime =
                 (case chainTimeData sdk of
                    Some t \<Rightarrow> \<lfloor>t\<rfloor> | None \<Rightarrow> \<lfloor>toDouble (of_nat now / 1000)\<rfloor>),
               slippage = toDouble (5 / 1000),
               epochInfo = epoch\<rparr> of
        Inl e \<Rightarrow> Inl e
      | Inr swapRoutes \<Rightarrow> Inr (routeData, swapRoutes)))))))"

text \<open>Lines 201 to 206: an empty list is an error, otherwise the first route is taken.\<close>

definition selectBestRoute :: "SwapRoute list \<Rightarrow> error + SwapRoute" where
  "selectBestRoute swapRoutes =
     (if length swapRoutes = 0 then Inl (Error ''No swap routes found for this pair.'')
      else Inr (swapRoutes ! 0))"

text \<open>
  Steps 6 to 8 (lines 207 to 239) on the chosen route. The console lines written
  before a step throws stay written.
\<close>

definition swapOnRoute :: "Sdk \<Rightarrow> Wallet \<Rightarrow> RouteData \<Rightarrow> SwapRoute \<Rightarrow> Line list \<Rightarrow> Line list \<times> (error + unit)" where
  "swapOnRoute sdk wallet routeData bestRoute out =
     (let out' = out @ [BestRoute (amountIn bestRoute) (amountOut bestRoute) (routeType bestRoute)]
      in case computePoolToPoolKeys sdk (poolInfoList bestRoute)
                (ammPoolsRpcInfo routeData) (clmmPoolsRpcInfo routeData) of
        Inl e \<Rightarrow> (out', Inl e)
      | Inr poolKeys \<Rightarrow>
      (case swap sdk bestRoute poolKeys of
        Inl e \<Rightarrow> (out', Inl e)
      | Inr built \<Rightarrow>
      (case execute sdk built of
        Inl e \<Rightarrow> (out', Inl e)
      | Inr txIds \<Rightarrow>
          (out' @ SwapSuccessful (publicKey wallet) # map TxLink txIds, Inr ()))))"

text \<open>The body of the \<^verbatim>\<open>try\<close> block.\<close>

definition performBuyTry :: "Sdk \<Rightarrow> Config \<Rightarrow> nat \<Rightarrow> Wallet \<Rightarrow> rat \<Rightarrow> Line list \<Rightarrow> Line list \<times> (error + unit)" where
  "performBuyTry sdk cfg now wallet finalBuySOL out =
     (let amountLamports = mathRound (toDouble (finalBuySOL * LAMPORTS_PER_SOL));
          out' = out @ [Swapping (publicKey wallet) finalBuySOL (CONTRACT_ADDRESS cfg)]
      in case fetchSwapRoutes sdk cfg now amountLamports of
        Inl e \<Rightarrow> (out', Inl e)
      | Inr (routeData, swapRoutes) \<Rightarrow>
      (case selectBestRoute swapRoutes of
        Inl e \<Rightarrow> (out', Inl e)
      | Inr bestRoute \<Rightarrow> swapOnRoute sdk wallet routeData bestRoute out'))"

text \<open>
  \<open>performBuy\<close> reads the global handle. \<open>Inl\<close> is a rejection that leaves the
  function; \<open>Inr\<close> is a normal return with the console as it then is.
\<close>

definition performBuy :: "Sdk option \<Rightarrow> Config \<Rightarrow> nat \<Rightarrow> Wallet \<Rightarrow> rat \<Rightarrow> Line list \<Rightarrow> error + Line list" where
  "performBuy handle cfg now wallet finalBuySOL out =
     (case handle of
        None \<Rightarrow> Inl (Error ''Raydium SDK is not initialized.'')
      | Some sdk \<Rightarrow>
          (case performBuyTry sdk cfg now wallet finalBuySOL out of
             (out', Inl e) \<Rightarrow> Inr (out' @ [BuyError (publicKey wallet) e])
           | (out', Inr u) \<Rightarrow> Inr out'))"

section \<open>runAutoBuy (lines 248 to 277)\<close>

definition desiredAmount :: "Config \<Rightarrow> rat \<Rightarrow> rat" where
  "desiredAmount cfg r =
     toDouble (toDouble (r * toDouble (MAX_BUY_AMOUNT_SOL cfg - MIN_BUY_AMOUNT_SOL cfg))
               + MIN_BUY_AMOUNT_SOL cfg)"

definition cannotAfford :: "Config \<Rightarrow> rat \<Rightarrow> bool" where
  "cannotAfford cfg finalAmountSOL \<longleftrightarrow> finalAmountSOL < MIN_BUY_AMOUNT_SOL cfg"

definition randomDelay :: "Config \<Rightarrow> rat \<Rightarrow> int" where
  "randomDelay cfg r =
     \<lfloor>toDouble
        (of_int \<lfloor>toDouble (r * toDouble (toDouble (of_int (MAX_DELAY cfg) - of_int (MIN_DELAY cfg)) + 1))\<rfloor>
         + of_int (MIN_DELAY cfg))\<rfloor>"

text \<open>
  The \<^verbatim>\<open>for\<close> loop. \<^verbatim>\<open>setTimeout\<close> only registers the callback: the loop goes on
  to the next wallet, and the only \<^verbatim>\<open>await\<close> is the balance query of the capper.
\<close>

fun autoBuyLoop :: "Env \<Rightarrow> Config \<Rightarrow> Wallet list \<Rightarrow> World \<Rightarrow> World \<times> (error + unit)" where
  "autoBuyLoop env cfg [] w = (w, Inr ())"
| "autoBuyLoop env cfg (wallet # rest) w =
     (case mathRandom env w of (w1, r1) \<Rightarrow>
       (case capBuyAmount env cfg wallet (desiredAmount cfg r1) w1 of
          (w2, Inl e) \<Rightarrow> (w2, Inl e)
        | (w2, Inr finalAmountSOL) \<Rightarrow>
            if cannotAfford cfg finalAmountSOL
            then autoBuyLoop env cfg rest
                   (emit (SkipWarn (publicKey wallet) (MIN_BUY_AMOUNT_SOL cfg)) w2)
            else (case mathRandom env w2 of (w3, r2) \<Rightarrow>
                   autoBuyLoop env cfg rest
                     (setTimeout wallet finalAmountSOL (randomDelay cfg r2)
                        (emit (WillBuy (publicKey wallet) finalAmountSOL (randomDelay cfg r2)) w3)))))"

definition runAutoBuy :: "Env \<Rightarrow> Config \<Rightarrow> World \<Rightarrow> World \<times> (error + unit)" where
  "runAutoBuy env cfg w =
     autoBuyLoop env cfg (WALLETS cfg) (emit (Starting (length (WALLETS cfg))) w)"

section \<open>The entrypoint (lines 282 to 299)\<close>

text \<open>\<^verbatim>\<open>process.exit(1)\<close> in the \<^verbatim>\<open>catch\<close> block.\<close>

definition fatal :: "error \<Rightarrow> World \<Rightarrow> World" where
  "fatal e w = (emit (Fatal e) w)\<lparr>exitCode := Some 1\<rparr>"

definition initWorld :: World where
  "initWorld = \<lparr>clock = 0, draws = 0, console = [], timers = [], raydium = None,
     exitCode = None\<rparr>"

definition main :: "Env \<Rightarrow> Config \<Rightarrow> World \<Rightarrow> World" where
  "main env cfg w =
     (case displayWalletBalances env (WALLETS cfg) (emit (Info ''Fetching initial balances...'') w) of
        (w1, Inl e) \<Rightarrow> fatal e w1
      | (w1, Inr u1) \<Rightarrow>
     (case initRaydium env cfg (emit (Info ''Initializing Raydium SDK...'') w1) of
        (w2, Inl e) \<Rightarrow> fatal e w2
      | (w2, Inr u2) \<Rightarrow>
     (case runAutoBuy env cfg (emit (Info ''Starting the auto-buy process...'') w2) of
        (w3, Inl e) \<Rightarrow> fatal e w3
      | (w3, Inr u3) \<Rightarrow>
     (case displayWalletBalances env (WALLETS cfg) (emit (Info ''Fetching final balances...'') w3) of
        (w4, Inl e) \<Rightarrow> fatal e w4
      | (w4, Inr u4) \<Rightarrow> w4))))"

text \<open>
  A timer callback (lines 273 to 275) calls \<open>performBuy\<close> with the global handle as
  it is when the timer fires.
\<close>

definition fireTimer :: "World \<Rightarrow> Config \<Rightarrow> nat \<Rightarrow> Timer \<Rightarrow> Line list \<Rightarrow> error + Line list" where
  "fireTimer w cfg now t out = performBuy (raydium w) cfg now (buyer t) (buyAmount t) out"

section \<open>Firing the registered timers\<close>

text \<open>
  The callbacks fire one after the other; \<open>nowOf\<close> gives the wall-clock time a
  callback reads. A rejection that leaves a callback is unhandled and ends the
  process, so the callbacks after it never run.
\<close>

fun fireAll :: "World \<Rightarrow> Config \<Rightarrow> (Timer \<Rightarrow> nat) \<Rightarrow> Timer list \<Rightarrow> Line list \<Rightarrow> error + Line list" where
  "fireAll w cfg nowOf [] out = Inr out"
| "fireAll w cfg nowOf (t # ts) out =
     (case fireTimer w cfg (nowOf t) t out of
        Inl e \<Rightarrow> Inl e
      | Inr out' \<Rightarrow> fireAll w cfg nowOf ts out')"

fun isSwapping :: "Line \<Rightarrow> bool" where
  "isSwapping (Swapping pk amount token) = True"
| "isSwapping l = False"

text \<open>The clock after \<open>n\<close> consecutive RPC round trips that start at time \<open>t\<close>.\<close>

fun afterQueries :: "Env \<Rightarrow> nat \<Rightarrow> nat \<Rightarrow> nat" where
  "afterQueries env 0 t = t"
| "afterQueries env (Suc n) t = afterQueries env n (t + rpcLatency env t)"

text \<open>
  What the loop over the wallets \<open>ws\<close>, started at time \<open>t0\<close>, records in a timer:
  the wallet at some index, the clock right after that wallet's balance query, a delay
  computed from a random draw, and an amount that passed the skip test.
\<close>

definition registeredBy :: "Env \<Rightarrow> Config \<Rightarrow> Wallet list \<Rightarrow> nat \<Rightarrow> Timer \<Rightarrow> bool" where
  "registeredBy env cfg ws t0 t \<longleftrightarrow>
     (\<exists>i<length ws. buyer t = ws ! i \<and> registeredAt t = afterQueries env (Suc i) t0) \<and>
     (\<exists>n. delayMs t = randomDelay cfg (random env n)) \<and> \<not> cannotAfford cfg (buyAmount t)"

text \<open>
  The same loop seen by wallet index. \<open>decisionAt\<close> is what the capper returns for the
  wallet at index \<open>i\<close> when that wallet is reached with \<open>d\<close> random draws consumed:
  its balance query is issued after \<open>i\<close> round trips, and its desired amount comes from
  draw \<open>d\<close>. \<open>skipsAt\<close> is the skip test of line 257 on that value. \<open>drawsAt\<close>
  counts the draws consumed before wallet \<open>i\<close> is reached: a skipped wallet consumes
  one draw, a scheduled one two. \<open>timerAt\<close> is the timer a scheduled wallet gets.
\<close>

definition decisionAt :: "Env \<Rightarrow> Config \<Rightarrow> Wallet list \<Rightarrow> nat \<Rightarrow> nat \<Rightarrow> nat \<Rightarrow> error + rat" where
  "decisionAt env cfg ws t0 i d =
     snd (capBuyAmount env cfg (ws ! i) (desiredAmount cfg (random env d))
            (initWorld\<lparr>clock := afterQueries env i t0\<rparr>))"

definition skipsAt :: "Env \<Rightarrow> Config \<Rightarrow> Wallet list \<Rightarrow> nat \<Rightarrow> nat \<Rightarrow> nat \<Rightarrow> bool" where
  "skipsAt env cfg ws t0 i d =
     (case decisionAt env cfg ws t0 i d of
        Inl e \<Rightarrow> True
      | Inr finalAmountSOL \<Rightarrow> cannotAfford cfg finalAmountSOL)"

fun drawsAt :: "Env \<Rightarrow> Config \<Rightarrow> Wallet list \<Rightarrow> nat \<Rightarrow> nat \<Rightarrow> nat \<Rightarrow> nat" where
  "drawsAt env cfg ws t0 d0 0 = d0"
| "drawsAt env cfg ws t0 d0 (Suc i) =
     (if skipsAt env cfg ws t0 i (drawsAt env cfg ws t0 d0 i)
      then Suc (drawsAt env cfg ws t0 d0 i)
      else Suc (Suc (drawsAt env cfg ws t0 d0 i)))"

definition scheduledAt :: "Env \<Rightarrow> Config \<Rightarrow> Wallet list \<Rightarrow> nat \<Rightarrow> nat \<Rightarrow> nat \<Rightarrow> bool" where
  "scheduledAt env cfg ws t0 d0 i \<longleftrightarrow> \<not> skipsAt env cfg ws t0 i (drawsAt env cfg ws t0 d0 i)"

definition timerAt :: "Env \<Rightarrow> Config \<Rightarrow> Wallet list \<Rightarrow> nat \<Rightarrow> nat \<Rightarrow> nat \<Rightarrow> Timer" where
  "timerAt env cfg ws t0 d0 i =
     \<lparr>registeredAt = afterQueries env (Suc i) t0,
      delayMs = randomDelay cfg (random env (Suc (drawsAt env cfg ws t0 d0 i))),
      buyer = ws ! i,
      buyAmount =
        (case decisionAt env cfg ws t0 i (drawsAt env cfg ws t0 d0 i) of
           Inl e \<Rightarrow> 0
         | Inr finalAmountSOL \<Rightarrow> finalAmountSOL)\<rparr>"

section \<open>The ordering of route candidates\<close>

text \<open>
  Modelled from the spec: the amount-out simulation and the ordering of its candidates
  happen inside the SDK's \<^verbatim>\<open>getAllRouteComputeAmountOut\<close>, whose code is not part of
  the repository. The spec's Route Resolver simulates every structural path, leaves out
  a path whose pool lacks the state needed for simulation, and orders the candidates
  by simulated output amount, descending, ties broken by fewer hops.
\<close>

definition betterRoute :: "SwapRoute \<Rightarrow> SwapRoute \<Rightarrow> bool" where
  "betterRoute a b \<longleftrightarrow>
     amountOut b < amountOut a \<or>
     (amountOut a = amountOut b \<and> length (poolInfoList a) \<le> length (poolInfoList b))"

fun insertBestFirst :: "SwapRoute \<Rightarrow> SwapRoute list \<Rightarrow> SwapRoute list" where
  "insertBestFirst c [] = [c]"
| "insertBestFirst c (d # ds) =
     (if betterRoute c d then c # d # ds else d # insertBestFirst c ds)"

fun orderBestFirst :: "SwapRoute list \<Rightarrow> SwapRoute list" where
  "orderBestFirst [] = []"
| "orderBestFirst (c # cs) = insertBestFirst c (orderBestFirst cs)"

definition simulateRoutes :: "('p \<Rightarrow> SwapRoute option) \<Rightarrow> 'p list \<Rightarrow> SwapRoute list" where
  "simulateRoutes simulate paths = orderBestFirst (List.map_filter simulate paths)"

section \<open>Concrete runs\<close>

definition demoWallet :: Wallet where
  "demoWallet = \<lparr>publicKey = ''WalletA'', secretKey = [1, 2, 3]\<rparr>"

text \<open>
  The default configuration with the given minimum buy amount (\<^verbatim>\<open>parseFloat\<close> yields
  the double nearest to the decimal) and the given wallets.
\<close>

definition demoConfigFor :: "Wallet list \<Rightarrow> rat \<Rightarrow> Config" where
  "demoConfigFor ws minBuy = \<lparr>CONTRACT_ADDRESS = ''TokenMint'', WALLETS = ws,
     MIN_DELAY = 100, MAX_DELAY = 5000,
     MIN_BUY_AMOUNT_SOL = toDouble minBuy, MAX_BUY_AMOUNT_SOL = 3\<rparr>"

definition demoConfig :: "rat \<Rightarrow> Config" where
  "demoConfig minBuy = demoConfigFor [demoWallet] minBuy"

definition demoWalletB :: Wallet where
  "demoWalletB = \<lparr>publicKey = ''WalletB'', secretKey = [4, 5, 6]\<rparr>"

definition demoWalletC :: Wallet where
  "demoWalletC = \<lparr>publicKey = ''WalletC'', secretKey = [7, 8, 9]\<rparr>"

definition route950 :: SwapRoute where
  "route950 = \<lparr>amountIn = 100, amountOut = 950, routeType = ''amm'', poolInfoList = [''poolA'']\<rparr>"

definition route900 :: SwapRoute where
  "route900 = \<lparr>amountIn = 100, amountOut = 900, routeType = ''route'',
     poolInfoList = [''poolB'', ''poolC'']\<rparr>"

definition demoRouteData :: RouteData where
  "demoRouteData = \<lparr>
     mintInfos = [''TokenMint'' \<mapsto> \<lparr>decimals = 6, programId = ''Tokenkeg'', feeConfig = None\<rparr>],
     ammPoolsRpcInfo = Blob 1, ammSimulateCache = [''poolA'' \<mapsto> Blob 2],
     clmmPoolsRpcInfo = Blob 3, computeClmmPoolInfo = Map.empty,
     computePoolTickData = Blob 4, computeCpmmData = Map.empty, routePathDict = Blob 5\<rparr>"

text \<open>A handle that finds the given routes and whose submission ends as given.\<close>

definition demoSdk :: "SwapRoute list \<Rightarrow> error + string list \<Rightarrow> Sdk" where
  "demoSdk found submitted = \<lparr>
     fetchRoutePoolBasicInfo = Inr (Blob 0),
     getAllRoute = (\<lambda>i out pd. Inr \<lparr>directPath = [''poolA''], routePaths = Blob 6\<rparr>),
     fetchSwapRoutesData = (\<lambda>rs i out. Inr demoRouteData),
     chainTimeData = None,
     getEpochInfo = Inr (Blob 7),
     getAllRouteComputeAmountOut = (\<lambda>args. Inr found),
     computePoolToPoolKeys = (\<lambda>pools amm clmm. Inr (Blob 8)),
     swap = (\<lambda>route keys. Inr (Blob 9)),
     execute = (\<lambda>built. submitted)\<rparr>"

text \<open>
  A ledger on which every wallet holds the given lamports, every round trip takes
  20 ms and every random draw is \<open>r\<close>.
\<close>

definition demoEnv :: "nat \<Rightarrow> rat \<Rightarrow> Env" where
  "demoEnv lamports r = \<lparr>getBalance = (\<lambda>t pk. Inr lamports), rpcLatency = (\<lambda>t. 20),
     random = (\<lambda>n. r), fromSecretKey = (\<lambda>k. Inr (Blob 0)),
     raydiumLoad = Inr (demoSdk [route950, route900] (Inl (Error ''submission rejected'')))\<rparr>"

text \<open>
  A ledger on which the wallet with public key \<open>pk\<close> holds \<open>balanceOf pk\<close>
  lamports, every round trip takes 20 ms, and the draws differ: draw \<open>n\<close> is
  \<open>(1 + n mod 7) / 8\<close>.
\<close>

definition variedEnv :: "(string \<Rightarrow> nat) \<Rightarrow> Env" where
  "variedEnv balanceOf = \<lparr>getBalance = (\<lambda>t pk. Inr (balanceOf pk)), rpcLatency = (\<lambda>t. 20),
     random = (\<lambda>n. (1 + of_nat (n mod 7)) / 8), fromSecretKey = (\<lambda>k. Inr (Blob 0)),
     raydiumLoad = Inr (demoSdk [route950, route900] (Inl (Error ''submission rejected'')))\<rparr>"

definition fullBalances :: "string \<Rightarrow> nat" where
  "fullBalances pk = 1000000000"

definition mixedBalances :: "string \<Rightarrow> nat" where
  "mixedBalances pk = (if pk = ''WalletB'' then 50000000 else 1000000000)"

definition threeWallets :: "Wallet list" where
  "threeWallets = [demoWallet, demoWalletB, demoWalletC]"

section \<open>Auxiliary facts\<close>

subsection \<open>Rounding to double precision\<close>

declare ulpOf.simps [simp del]

lemma ulpOf_small: "0 < x \<Longrightarrow> x < 2 ^ 52 \<Longrightarrow> ulpOf x = ulpOf (2 * x) / 2"
  by (subst ulpOf.simps) simp

lemma ulpOf_mid: "2 ^ 52 \<le> x \<Longrightarrow> x < 2 ^ 53 \<Longrightarrow> ulpOf x = 1"
  by (subst ulpOf.simps) simp

lemma ulpOf_big: "2 ^ 53 \<le> x \<Longrightarrow> ulpOf x = 2 * ulpOf (x / 2)"
  by (subst ulpOf.simps) simp

lemma ulpOf_pos: "0 < ulpOf x"
proof (induction x rule: ulpOf.induct)
  case (1 x)
  show ?case
  proof (cases "x \<le> 0")
    case True
    then show ?thesis by (subst ulpOf.simps) simp
  next
    case pos: False
    show ?thesis
    proof (cases "2 ^ 53 \<le> x")
      case True
      with pos "1.IH"(1) show ?thesis by (simp add: ulpOf_big)
    next
      case nb: False
      show ?thesis
      proof (cases "x < 2 ^ 52")
        case True
        with pos nb "1.IH"(2) show ?thesis by (simp add: ulpOf_small)
      next
        case False
        with nb show ?thesis by (simp add: ulpOf_mid)
      qed
    qed
  qed
qed

lemma ulpOf_bounds: "0 < x \<Longrightarrow> 2 ^ 52 * ulpOf x \<le> x \<and> x < 2 ^ 53 * ulpOf x"
proof (induction x rule: ulpOf.induct)
  case (1 x)
  have pos: "\<not> x \<le> 0" using "1.prems" by simp
  show ?case
  proof (cases "2 ^ 53 \<le> x")
    case True
    have "2 ^ 52 * ulpOf (x / 2) \<le> x / 2 \<and> x / 2 < 2 ^ 53 * ulpOf (x / 2)"
      using "1.IH"(1) [OF pos True] "1.prems" by simp
    then show ?thesis using True by (simp add: ulpOf_big)
  next
    case nb: False
    show ?thesis
    proof (cases "x < 2 ^ 52")
      case True
      have "2 ^ 52 * ulpOf (2 * x) \<le> 2 * x \<and> 2 * x < 2 ^ 53 * ulpOf (2 * x)"
        using "1.IH"(2) [OF pos nb True] "1.prems" by simp
      then show ?thesis using True "1.prems" by (simp add: ulpOf_small)
    next
      case False
      with nb show ?thesis by (simp add: ulpOf_mid)
    qed
  qed
qed

lemma ulpOf_scaled:
  "0 < x \<Longrightarrow> 2 ^ 52 \<le> x * 2 ^ j \<Longrightarrow> x * 2 ^ j < 2 ^ 53 \<Longrightarrow> ulpOf x = 1 / 2 ^ j"
proof (induction j arbitrary: x)
  case 0
  then show ?case by (simp add: ulpOf_mid)
next
  case (Suc j)
  have "(1::rat) \<le> 2 ^ j" by simp
  then have "x * 2 \<le> x * 2 ^ Suc j" using Suc.prems(1) by simp
  then have s: "x < 2 ^ 52" using Suc.prems(3) by simp
  have "ulpOf (2 * x) = 1 / 2 ^ j"
    using Suc.prems by (intro Suc.IH) (simp_all add: mult.assoc mult.commute)
  then show ?case using s Suc.prems(1) by (simp add: ulpOf_small)
qed

lemma ulpOf_pow2: "0 < x \<Longrightarrow> x < 2 ^ 53 \<Longrightarrow> \<exists>j::nat. ulpOf x = 1 / 2 ^ j"
proof (induction x rule: ulpOf.induct)
  case (1 x)
  have pos: "\<not> x \<le> 0" and nb: "\<not> 2 ^ 53 \<le> x" using "1.prems" by simp_all
  show ?case
  proof (cases "x < 2 ^ 52")
    case True
    then obtain j :: nat where "ulpOf (2 * x) = 1 / 2 ^ j"
      using "1.IH"(2) [OF pos nb True] "1.prems" by auto
    then have "ulpOf x = 1 / 2 ^ Suc j" using True "1.prems" by (simp add: ulpOf_small)
    then show ?thesis by blast
  next
    case False
    then have "ulpOf x = 1 / 2 ^ (0::nat)" using nb by (simp add: ulpOf_mid)
    then show ?thesis by blast
  qed
qed

lemma roundHalfEven_near:
  assumes "\<bar>y - of_int m\<bar> < 1 / 2"
  shows "roundHalfEven y = m"
proof (cases "of_int m \<le> y")
  case True
  then have "\<lfloor>y\<rfloor> = m" using assms by (intro floor_unique) simp_all
  then show ?thesis using assms True by (simp add: roundHalfEven_def)
next
  case False
  then have f: "\<lfloor>y\<rfloor> = m - 1" using assms by (intro floor_unique) simp_all
  have "1 / 2 < y - of_int (m - 1)" using assms False by simp
  then show ?thesis using f by (simp add: roundHalfEven_def)
qed

lemma roundHalfEven_of_int [simp]: "roundHalfEven (of_int k) = k"
  by (rule roundHalfEven_near) simp

lemma roundHalfEven_upper: "of_int (roundHalfEven y) \<le> y + 1 / 2"
proof -
  have a: "of_int \<lfloor>y\<rfloor> \<le> y" by (rule of_int_floor_le)
  show ?thesis
  proof (cases "y - of_int \<lfloor>y\<rfloor> < 1 / 2")
    case True
    then have "roundHalfEven y = \<lfloor>y\<rfloor>" by (simp add: roundHalfEven_def)
    moreover have "of_int \<lfloor>y\<rfloor> \<le> y + 1 / 2" using a by linarith
    ultimately show ?thesis by simp
  next
    case False
    then have "of_int (\<lfloor>y\<rfloor> + 1) \<le> y + 1 / 2" by simp
    moreover have "roundHalfEven y \<le> \<lfloor>y\<rfloor> + 1" by (simp add: roundHalfEven_def Let_def)
    then have "(of_int (roundHalfEven y) :: rat) \<le> of_int (\<lfloor>y\<rfloor> + 1)"
      by (simp only: of_int_le_iff)
    ultimately show ?thesis by linarith
  qed
qed

lemma roundHalfEven_ge_floor: "\<lfloor>y\<rfloor> \<le> roundHalfEven y"
  by (simp add: roundHalfEven_def Let_def)

lemma roundHalfEven_ge_int: "of_int j \<le> y \<Longrightarrow> j \<le> roundHalfEven y"
proof -
  assume "of_int j \<le> y"
  then have "j \<le> \<lfloor>y\<rfloor>" by (simp add: le_floor_iff)
  with roundHalfEven_ge_floor [of y] show ?thesis by linarith
qed

lemma toDouble_pos:
  "0 < x \<Longrightarrow> toDouble x = ulpOf x * of_int (roundHalfEven (x / ulpOf x))"
  by (simp add: toDouble_def)

lemma toDouble_zero [simp]: "toDouble 0 = 0"
  by (simp add: toDouble_def)

lemma toDouble_minus: "toDouble (- x) = - toDouble x"
  by (simp add: toDouble_def sgn_minus)

lemma toDouble_nonneg: "0 \<le> x \<Longrightarrow> 0 \<le> toDouble x"
proof (cases "x = 0")
  case True
  then show ?thesis by simp
next
  case False
  assume "0 \<le> x"
  with False have x: "0 < x" by simp
  have "0 \<le> x / ulpOf x" using x ulpOf_pos [of x] by simp
  then have "0 \<le> roundHalfEven (x / ulpOf x)"
    using roundHalfEven_ge_int [of 0 "x / ulpOf x"] by simp
  then show ?thesis using x ulpOf_pos [of x] by (simp add: toDouble_pos)
qed

lemma toDouble_upper:
  assumes "0 < x"
  shows "toDouble x \<le> x * (1 + 1 / 2 ^ 53)"
proof -
  let ?q = "ulpOf x"
  have q: "0 < ?q" by (rule ulpOf_pos)
  have b: "2 ^ 52 * ?q \<le> x" using ulpOf_bounds [OF assms] by simp
  have "toDouble x = ?q * of_int (roundHalfEven (x / ?q))"
    using assms by (rule toDouble_pos)
  also have "\<dots> \<le> ?q * (x / ?q + 1 / 2)"
    using q roundHalfEven_upper [of "x / ?q"] by (simp add: mult_left_mono)
  also have "\<dots> = x + ?q / 2" using q by (simp add: algebra_simps)
  also have "\<dots> \<le> x + x / 2 ^ 53" using b by (simp add: field_simps)
  also have "\<dots> = x * (1 + 1 / 2 ^ 53)" by (simp add: algebra_simps)
  finally show ?thesis .
qed

lemma toDouble_ge_int:
  assumes "0 \<le> m" "of_int m \<le> x" "x < 2 ^ 53"
  shows "of_int m \<le> toDouble x"
proof (cases "0 < x")
  case False
  with assms have "x = 0" "m = 0" by simp_all
  then show ?thesis by simp
next
  case True
  obtain j :: nat where j: "ulpOf x = 1 / 2 ^ j"
    using ulpOf_pow2 [OF True assms(3)] by blast
  have "of_int (m * 2 ^ j) \<le> x * 2 ^ j" using assms(2) by simp
  then have "m * 2 ^ j \<le> roundHalfEven (x * 2 ^ j)" by (rule roundHalfEven_ge_int)
  then have "(of_int (m * 2 ^ j) :: rat) \<le> of_int (roundHalfEven (x * 2 ^ j))"
    by (simp only: of_int_le_iff)
  then have "of_int m \<le> of_int (roundHalfEven (x * 2 ^ j)) / (2 ^ j :: rat)"
    by (simp add: pos_le_divide_eq)
  then show ?thesis using True by (simp add: toDouble_pos j)
qed

lemma toDouble_exact:
  assumes "0 < x" "2 ^ 52 \<le> x * 2 ^ j" "x * 2 ^ j < 2 ^ 53" "\<bar>x * 2 ^ j - of_int m\<bar> < 1 / 2"
  shows "toDouble x = of_int m / 2 ^ j"
proof -
  have "ulpOf x = 1 / 2 ^ j" using assms(1-3) by (rule ulpOf_scaled)
  moreover have "roundHalfEven (x * 2 ^ j) = m" using assms(4) by (rule roundHalfEven_near)
  ultimately show ?thesis using assms(1) by (simp add: toDouble_pos)
qed

lemma toDouble_of_int_pos:
  assumes "0 < k" "of_int k < (2::rat) ^ 53"
  shows "toDouble (of_int k) = of_int k"
proof -
  have x: "(0::rat) < of_int k" using assms(1) by simp
  obtain j :: nat where j: "ulpOf (of_int k) = 1 / 2 ^ j"
    using ulpOf_pow2 [OF x assms(2)] by blast
  have "roundHalfEven (of_int k * 2 ^ j) = k * 2 ^ j"
    using roundHalfEven_of_int [of "k * 2 ^ j"] by simp
  then show ?thesis using x by (simp add: toDouble_pos j)
qed

lemma toDouble_2_53: "toDouble (2 ^ 53) = 2 ^ 53"
proof -
  have "ulpOf (2 ^ 53) = 2 * ulpOf (2 ^ 52)" by (subst ulpOf_big) simp_all
  also have "\<dots> = 2" by (simp add: ulpOf_mid)
  finally have u: "ulpOf (2 ^ 53) = 2" .
  have "roundHalfEven (of_int (2 ^ 52)) = 2 ^ 52" by (rule roundHalfEven_of_int)
  then have r: "roundHalfEven (2 ^ 53 / 2) = 2 ^ 52" by simp
  show ?thesis unfolding toDouble_def using u r by simp
qed

lemma toDouble_of_int:
  assumes "\<bar>k\<bar> \<le> 2 ^ 53"
  shows "toDouble (of_int k) = of_int k"
proof -
  have p: "toDouble (of_int n) = of_int n" if "0 \<le> n" "n \<le> 2 ^ 53" for n :: int
  proof (cases "n = 0 \<or> n = 2 ^ 53")
    case True
    then show ?thesis using toDouble_2_53 by auto
  next
    case False
    with that have "0 < n" "n < 2 ^ 53" by simp_all
    then have "0 < n" "(of_int n :: rat) < of_int (2 ^ 53)" by (simp_all only: of_int_less_iff)
    then show ?thesis by (intro toDouble_of_int_pos) simp_all
  qed
  show ?thesis
  proof (cases "0 \<le> k")
    case True
    with assms show ?thesis by (intro p) simp_all
  next
    case False
    with assms have "toDouble (of_int (- k)) = of_int (- k)" by (intro p) simp_all
    then show ?thesis using toDouble_minus [of "of_int k"] by simp
  qed
qed

subsection \<open>The delay computation\<close>

lemma randomDelay_count:
  assumes "\<bar>MIN_DELAY cfg\<bar> \<le> 2 ^ 51" "\<bar>MAX_DELAY cfg\<bar> \<le> 2 ^ 51" "MIN_DELAY cfg \<le> MAX_DELAY cfg"
  shows "toDouble (toDouble (of_int (MAX_DELAY cfg) - of_int (MIN_DELAY cfg)) + 1) =
         of_int (MAX_DELAY cfg - MIN_DELAY cfg + 1)"
proof -
  have "toDouble (of_int (MAX_DELAY cfg - MIN_DELAY cfg)) = of_int (MAX_DELAY cfg - MIN_DELAY cfg)"
    using assms by (intro toDouble_of_int) simp
  moreover have "toDouble (of_int (MAX_DELAY cfg - MIN_DELAY cfg + 1)) =
      of_int (MAX_DELAY cfg - MIN_DELAY cfg + 1)"
    using assms by (intro toDouble_of_int) simp
  ultimately show ?thesis by simp
qed

lemma draw_scaled:
  assumes "0 \<le> (r::rat)" "r \<le> 1 - 1 / 2 ^ 53" "0 < (n::int)" "n \<le> 2 ^ 53"
  shows "0 \<le> r * of_int n" and "r * of_int n < 2 ^ 53"
    and "r * of_int n * (1 + 1 / 2 ^ 53) < of_int n"
proof -
  define N :: rat where "N = of_int n"
  have N: "0 < N" using assms(3) by (simp add: N_def)
  have "N \<le> of_int (2 ^ 53)" unfolding N_def using assms(4) by (simp only: of_int_le_iff)
  then have Nb: "N \<le> 2 ^ 53" by simp
  show "0 \<le> r * of_int n" using assms(1,3) by simp
  have a: "r * N \<le> (1 - 1 / 2 ^ 53) * N" using assms(2) N by (intro mult_right_mono) simp_all
  have "(1 - 1 / 2 ^ 53) * N < 1 * N" using N by (intro mult_strict_right_mono) simp_all
  with a have "r * N < N" by simp
  with Nb show "r * of_int n < 2 ^ 53" by (simp add: N_def)
  have "r * N * (1 + 1 / 2 ^ 53) \<le> (1 - 1 / 2 ^ 53) * N * (1 + 1 / 2 ^ 53)"
    using a by (rule mult_right_mono) simp
  also have "\<dots> = ((1 - 1 / 2 ^ 53) * (1 + 1 / 2 ^ 53)) * N" by (simp only: mult_ac)
  also have "\<dots> < 1 * N" using N by (intro mult_strict_right_mono) simp_all
  finally show "r * of_int n * (1 + 1 / 2 ^ 53) < of_int n" by (simp add: N_def)
qed

lemma floor_toDouble_inner:
  assumes "0 \<le> x" "x < 2 ^ 53" "of_int m \<le> x" "x * (1 + 1 / 2 ^ 53) < of_int m + 1"
  shows "\<lfloor>toDouble x\<rfloor> = m"
proof -
  have m0: "0 \<le> m"
  proof (rule ccontr)
    assume "\<not> 0 \<le> m"
    then have "m + 1 \<le> 0" by simp
    then have "(of_int (m + 1) :: rat) \<le> of_int 0" by (simp only: of_int_le_iff)
    then have "(of_int m :: rat) + 1 \<le> 0" by simp
    moreover have "0 \<le> x * (1 + 1 / 2 ^ 53)" using assms(1) by simp
    ultimately show False using assms(4) by linarith
  qed
  have lo: "of_int m \<le> toDouble x" using m0 assms(3,2) by (rule toDouble_ge_int)
  have hi: "toDouble x < of_int m + 1"
  proof (cases "x = 0")
    case True
    have "(of_int 0 :: rat) \<le> of_int m" using m0 by (simp only: of_int_le_iff)
    then show ?thesis using True by simp
  next
    case False
    with assms(1) have "0 < x" by simp
    then have "toDouble x \<le> x * (1 + 1 / 2 ^ 53)" by (rule toDouble_upper)
    with assms(4) show ?thesis by linarith
  qed
  show ?thesis using lo hi by (rule floor_unique)
qed

lemma floor_toDouble_outer:
  assumes "0 \<le> x" "x < 2 ^ 53" "\<lfloor>toDouble x\<rfloor> = m"
  shows "of_int m \<le> x * (1 + 1 / 2 ^ 53)" and "x < of_int m + 1"
proof -
  have t0: "0 \<le> toDouble x" using assms(1) by (rule toDouble_nonneg)
  then have "0 \<le> \<lfloor>toDouble x\<rfloor>" by simp
  then have m0: "0 \<le> m" using assms(3) by simp
  have a: "of_int m \<le> toDouble x" using of_int_floor_le [of "toDouble x"] assms(3) by simp
  have b: "toDouble x < of_int m + 1" using floor_correct [of "toDouble x"] assms(3) by simp
  show "of_int m \<le> x * (1 + 1 / 2 ^ 53)"
  proof (cases "x = 0")
    case True
    with a show ?thesis by simp
  next
    case False
    with assms(1) have "0 < x" by simp
    then have "toDouble x \<le> x * (1 + 1 / 2 ^ 53)" by (rule toDouble_upper)
    with a show ?thesis by linarith
  qed
  show "x < of_int m + 1"
  proof (rule ccontr)
    assume "\<not> x < of_int m + 1"
    then have "of_int (m + 1) \<le> x" by simp
    moreover have "0 \<le> m + 1" using m0 by simp
    ultimately have "of_int (m + 1) \<le> toDouble x" using assms(2) by (intro toDouble_ge_int)
    with b show False by simp
  qed
qed

lemma scaled_draw_floor:
  assumes "0 \<le> (r::rat)" "r \<le> 1 - 1 / 2 ^ 53" "0 < (n::int)" "n \<le> 2 ^ 53"
  shows "0 \<le> \<lfloor>toDouble (r * of_int n)\<rfloor> \<and> \<lfloor>toDouble (r * of_int n)\<rfloor> < n"
proof -
  define x where "x = r * of_int n"
  have x0: "0 \<le> x" and xn: "x * (1 + 1 / 2 ^ 53) < of_int n"
    unfolding x_def using draw_scaled [OF assms] by simp_all
  have lo: "0 \<le> toDouble x" using x0 by (rule toDouble_nonneg)
  have hi: "toDouble x < of_int n"
  proof (cases "x = 0")
    case True
    then show ?thesis using assms(3) by simp
  next
    case False
    with x0 have "0 < x" by simp
    then have "toDouble x \<le> x * (1 + 1 / 2 ^ 53)" by (rule toDouble_upper)
    with xn show ?thesis by linarith
  qed
  from lo have "0 \<le> \<lfloor>toDouble x\<rfloor>" by simp
  moreover from hi have "\<lfloor>toDouble x\<rfloor> < n" by (simp add: floor_less_iff)
  ultimately show ?thesis unfolding x_def by blast
qed

lemma randomDelay_plain:
  assumes "\<bar>MIN_DELAY cfg\<bar> \<le> 2 ^ 51" "\<bar>MAX_DELAY cfg\<bar> \<le> 2 ^ 51" "MIN_DELAY cfg \<le> MAX_DELAY cfg"
    and "0 \<le> r" "r \<le> 1 - 1 / 2 ^ 53"
  shows "randomDelay cfg r =
           \<lfloor>toDouble (r * of_int (MAX_DELAY cfg - MIN_DELAY cfg + 1))\<rfloor> + MIN_DELAY cfg"
    and "0 \<le> \<lfloor>toDouble (r * of_int (MAX_DELAY cfg - MIN_DELAY cfg + 1))\<rfloor>"
    and "\<lfloor>toDouble (r * of_int (MAX_DELAY cfg - MIN_DELAY cfg + 1))\<rfloor> < MAX_DELAY cfg - MIN_DELAY cfg + 1"
proof -
  define n where "n = MAX_DELAY cfg - MIN_DELAY cfg + 1"
  define m where "m = \<lfloor>toDouble (r * of_int n)\<rfloor>"
  have n: "0 < n" "n \<le> 2 ^ 53" using assms(1-3) by (simp_all add: n_def)
  have m: "0 \<le> m \<and> m < n" unfolding m_def using assms(4,5) n by (rule scaled_draw_floor)
  then show "0 \<le> \<lfloor>toDouble (r * of_int (MAX_DELAY cfg - MIN_DELAY cfg + 1))\<rfloor>"
    and "\<lfloor>toDouble (r * of_int (MAX_DELAY cfg - MIN_DELAY cfg + 1))\<rfloor> < MAX_DELAY cfg - MIN_DELAY cfg + 1"
    unfolding m_def n_def by simp_all
  have "- (2 ^ 51) \<le> MIN_DELAY cfg" "MAX_DELAY cfg \<le> 2 ^ 51"
    using assms(1,2) by (simp_all add: abs_le_iff)
  then have "- (2 ^ 53) \<le> m + MIN_DELAY cfg \<and> m + MIN_DELAY cfg \<le> 2 ^ 53"
    using m unfolding n_def by simp
  then have "\<bar>m + MIN_DELAY cfg\<bar> \<le> 2 ^ 53" by (simp add: abs_le_iff)
  then have e: "toDouble (of_int (m + MIN_DELAY cfg)) = of_int (m + MIN_DELAY cfg)"
    by (rule toDouble_of_int)
  have "randomDelay cfg r = \<lfloor>toDouble (of_int m + of_int (MIN_DELAY cfg))\<rfloor>"
    by (simp only: randomDelay_def randomDelay_count [OF assms(1-3)] m_def n_def)
  also have "\<dots> = \<lfloor>toDouble (of_int (m + MIN_DELAY cfg))\<rfloor>" by simp
  also have "\<dots> = m + MIN_DELAY cfg" by (simp only: e floor_of_int)
  finally show "randomDelay cfg r =
      \<lfloor>toDouble (r * of_int (MAX_DELAY cfg - MIN_DELAY cfg + 1))\<rfloor> + MIN_DELAY cfg"
    unfolding m_def n_def .
qed

lemma randomDelay_range:
  assumes "\<bar>MIN_DELAY cfg\<bar> \<le> 2 ^ 51" "\<bar>MAX_DELAY cfg\<bar> \<le> 2 ^ 51" "MIN_DELAY cfg \<le> MAX_DELAY cfg"
    and "0 \<le> r" "r \<le> 1 - 1 / 2 ^ 53"
  shows "MIN_DELAY cfg \<le> randomDelay cfg r \<and> randomDelay cfg r \<le> MAX_DELAY cfg"
  using randomDelay_plain [OF assms] by linarith

lemma randomDelay_inner:
  assumes "\<bar>MIN_DELAY cfg\<bar> \<le> 2 ^ 51" "\<bar>MAX_DELAY cfg\<bar> \<le> 2 ^ 51" "MIN_DELAY cfg \<le> MAX_DELAY cfg"
    and "0 \<le> r" "r \<le> 1 - 1 / 2 ^ 53"
    and "of_int (k - MIN_DELAY cfg) \<le> r * of_int (MAX_DELAY cfg - MIN_DELAY cfg + 1)"
    and "r * of_int (MAX_DELAY cfg - MIN_DELAY cfg + 1) * (1 + 1 / 2 ^ 53) < of_int (k - MIN_DELAY cfg) + 1"
  shows "randomDelay cfg r = k"
proof -
  define n where "n = MAX_DELAY cfg - MIN_DELAY cfg + 1"
  have n: "0 < n" "n \<le> 2 ^ 53" using assms(1-3) by (simp_all add: n_def)
  have "\<lfloor>toDouble (r * of_int n)\<rfloor> = k - MIN_DELAY cfg"
    using draw_scaled(1,2) [OF assms(4,5) n] assms(6,7) unfolding n_def
    by (rule floor_toDouble_inner)
  then show ?thesis using randomDelay_plain(1) [OF assms(1-5)] by (simp add: n_def)
qed

lemma randomDelay_outer:
  assumes "\<bar>MIN_DELAY cfg\<bar> \<le> 2 ^ 51" "\<bar>MAX_DELAY cfg\<bar> \<le> 2 ^ 51" "MIN_DELAY cfg \<le> MAX_DELAY cfg"
    and "0 \<le> r" "r \<le> 1 - 1 / 2 ^ 53"
    and "randomDelay cfg r = k"
  shows "of_int (k - MIN_DELAY cfg) \<le> r * of_int (MAX_DELAY cfg - MIN_DELAY cfg + 1) * (1 + 1 / 2 ^ 53) \<and>
         r * of_int (MAX_DELAY cfg - MIN_DELAY cfg + 1) < of_int (k - MIN_DELAY cfg) + 1"
proof -
  define n where "n = MAX_DELAY cfg - MIN_DELAY cfg + 1"
  have n: "0 < n" "n \<le> 2 ^ 53" using assms(1-3) by (simp_all add: n_def)
  have f: "\<lfloor>toDouble (r * of_int n)\<rfloor> = k - MIN_DELAY cfg"
    using randomDelay_plain(1) [OF assms(1-5)] assms(6) by (simp add: n_def)
  show ?thesis
    using floor_toDouble_outer [OF draw_scaled(1,2) [OF assms(4,5) n] f] unfolding n_def
    by blast
qed

subsection \<open>The capper\<close>

lemma capBuyAmount_value:
  "getBalance env (clock w) (publicKey wallet) = Inr lamports \<Longrightarrow>
   snd (capBuyAmount env cfg wallet desired w) =
     Inr (if toDouble (toDouble (toDouble (of_nat lamports) / LAMPORTS_PER_SOL) - FEE_BUFFER_SOL)
               < MIN_BUY_AMOUNT_SOL cfg then 0
          else min desired
                 (toDouble (toDouble (toDouble (of_nat lamports) / LAMPORTS_PER_SOL) - FEE_BUFFER_SOL)))"
  by (simp add: capBuyAmount_def awaitGetBalance_def Let_def)

lemma capBuyAmount_error:
  "getBalance env (clock w) (publicKey wallet) = Inl e \<Longrightarrow>
   snd (capBuyAmount env cfg wallet desired w) = Inl e"
  by (simp add: capBuyAmount_def awaitGetBalance_def)

lemma capBuyAmount_Inr_balance:
  "snd (capBuyAmount env cfg wallet desired w) = Inr c \<Longrightarrow>
   \<exists>lamports. getBalance env (clock w) (publicKey wallet) = Inr lamports"
  by (cases "getBalance env (clock w) (publicKey wallet)") (auto simp: capBuyAmount_error)

lemma capBuyAmount_floor_or_zero:
  assumes "MIN_BUY_AMOUNT_SOL cfg \<le> desired"
    and "snd (capBuyAmount env cfg wallet desired w) = Inr capped"
  shows "capped = 0 \<or> MIN_BUY_AMOUNT_SOL cfg \<le> capped"
    and "0 < MIN_BUY_AMOUNT_SOL cfg \<Longrightarrow> cannotAfford cfg capped \<longleftrightarrow> capped = 0"
proof -
  obtain lamports where b: "getBalance env (clock w) (publicKey wallet) = Inr lamports"
    using capBuyAmount_Inr_balance [OF assms(2)] by blast
  show "capped = 0 \<or> MIN_BUY_AMOUNT_SOL cfg \<le> capped"
    using capBuyAmount_value [OF b, of cfg desired] assms
    by (auto split: if_splits)
  show "cannotAfford cfg capped \<longleftrightarrow> capped = 0" if "0 < MIN_BUY_AMOUNT_SOL cfg"
    using capBuyAmount_value [OF b, of cfg desired] assms that
    by (auto simp: cannotAfford_def split: if_splits)
qed

lemma capBuyAmount_snd_clock:
  "clock w = clock w' \<Longrightarrow>
   snd (capBuyAmount env cfg wallet d w) = snd (capBuyAmount env cfg wallet d w')"
  by (simp add: capBuyAmount_def awaitGetBalance_def Let_def split: sum.splits)

subsection \<open>The loop of the orchestrator\<close>

lemma emit_fields [simp]:
  "clock (emit l w) = clock w" "draws (emit l w) = draws w"
  "timers (emit l w) = timers w" "raydium (emit l w) = raydium w"
  "exitCode (emit l w) = exitCode w" "console (emit l w) = console w @ [l]"
  by (simp_all add: emit_def)

lemma setTimeout_fields [simp]:
  "clock (setTimeout a x d w) = clock w" "draws (setTimeout a x d w) = draws w"
  "raydium (setTimeout a x d w) = raydium w" "exitCode (setTimeout a x d w) = exitCode w"
  "console (setTimeout a x d w) = console w"
  "timers (setTimeout a x d w) =
     timers w @ [\<lparr>registeredAt = clock w, delayMs = d, buyer = a, buyAmount = x\<rparr>]"
  by (simp_all add: setTimeout_def)

lemma capBuyAmount_fst:
  "fst (capBuyAmount env cfg wallet d w) = w\<lparr>clock := clock w + rpcLatency env (clock w)\<rparr>"
  by (simp add: capBuyAmount_def awaitGetBalance_def Let_def split: sum.splits)

lemma decisionAt_first:
  "decisionAt env cfg (a # rest) (clock w) 0 (draws w) =
   snd (capBuyAmount env cfg a (desiredAmount cfg (random env (draws w)))
          (w\<lparr>draws := Suc (draws w)\<rparr>))"
  unfolding decisionAt_def
  by (simp add: capBuyAmount_snd_clock [of "initWorld\<lparr>clock := clock w\<rparr>" "w\<lparr>draws := Suc (draws w)\<rparr>"])

lemma autoBuyLoop_step:
  obtains (failed) e w2 where
      "autoBuyLoop env cfg (a # rest) w = (w2, Inl e)"
      "timers w2 = timers w" "raydium w2 = raydium w" "exitCode w2 = exitCode w"
  | (skipped) w2 c where
      "autoBuyLoop env cfg (a # rest) w = autoBuyLoop env cfg rest w2"
      "timers w2 = timers w" "raydium w2 = raydium w" "exitCode w2 = exitCode w"
      "clock w2 = clock w + rpcLatency env (clock w)"
      "draws w2 = Suc (draws w)"
      "decisionAt env cfg (a # rest) (clock w) 0 (draws w) = Inr c" "cannotAfford cfg c"
  | (scheduled) w2 x where
      "autoBuyLoop env cfg (a # rest) w = autoBuyLoop env cfg rest w2"
      "timers w2 = timers w @ [\<lparr>registeredAt = clock w + rpcLatency env (clock w),
          delayMs = randomDelay cfg (random env (Suc (draws w))), buyer = a, buyAmount = x\<rparr>]"
      "\<not> cannotAfford cfg x"
      "raydium w2 = raydium w" "exitCode w2 = exitCode w"
      "clock w2 = clock w + rpcLatency env (clock w)"
      "draws w2 = Suc (Suc (draws w))"
      "decisionAt env cfg (a # rest) (clock w) 0 (draws w) = Inr x"
proof -
  let ?w1 = "w\<lparr>draws := Suc (draws w)\<rparr>"
  let ?d = "desiredAmount cfg (random env (draws w))"
  obtain w2 res where cap: "capBuyAmount env cfg a ?d ?w1 = (w2, res)"
    by (cases "capBuyAmount env cfg a ?d ?w1") auto
  have w2: "w2 = ?w1\<lparr>clock := clock ?w1 + rpcLatency env (clock ?w1)\<rparr>"
    using capBuyAmount_fst [of env cfg a ?d ?w1] cap by simp
  have dec: "decisionAt env cfg (a # rest) (clock w) 0 (draws w) = res"
    using decisionAt_first [of env cfg a rest w] cap by simp
  show thesis
  proof (cases res)
    case (Inl e)
    show thesis
      by (rule failed [of w2 e]) (simp_all add: mathRandom_def cap Inl w2)
  next
    case (Inr x)
    show thesis
    proof (cases "cannotAfford cfg x")
      case True
      show thesis
        by (rule skipped [of "emit (SkipWarn (publicKey a) (MIN_BUY_AMOUNT_SOL cfg)) w2" x])
          (simp_all add: mathRandom_def cap Inr True w2 dec)
    next
      case False
      show thesis
        by (rule scheduled [of "setTimeout a x (randomDelay cfg (random env (draws w2)))
              (emit (WillBuy (publicKey a) x (randomDelay cfg (random env (draws w2))))
                 (w2\<lparr>draws := Suc (draws w2)\<rparr>))" x])
          (simp_all add: mathRandom_def cap Inr False w2 dec)
    qed
  qed
qed

declare autoBuyLoop.simps(2) [simp del]

lemma autoBuyLoop_handle:
  "raydium (fst (autoBuyLoop env cfg ws w)) = raydium w \<and>
   exitCode (fst (autoBuyLoop env cfg ws w)) = exitCode w"
proof (induction ws arbitrary: w)
  case Nil
  show ?case by simp
next
  case (Cons a rest)
  show ?case
    by (rule autoBuyLoop_step [of env cfg a rest w]) (simp_all add: Cons.IH)
qed

lemma autoBuyLoop_clock:
  "snd (autoBuyLoop env cfg ws w) = Inr u \<Longrightarrow>
   clock (fst (autoBuyLoop env cfg ws w)) = afterQueries env (length ws) (clock w)"
proof (induction ws arbitrary: w)
  case Nil
  show ?case by simp
next
  case (Cons a rest)
  show ?case
  proof (rule autoBuyLoop_step [of env cfg a rest w])
    fix e w2 assume "autoBuyLoop env cfg (a # rest) w = (w2, Inl e)"
    with Cons.prems show ?thesis by simp
  next
    fix w2 assume s: "autoBuyLoop env cfg (a # rest) w = autoBuyLoop env cfg rest w2"
      and c: "clock w2 = clock w + rpcLatency env (clock w)"
    from Cons.prems s have "snd (autoBuyLoop env cfg rest w2) = Inr u" by simp
    from Cons.IH [OF this] show ?thesis by (simp add: s c)
  next
    fix w2 assume s: "autoBuyLoop env cfg (a # rest) w = autoBuyLoop env cfg rest w2"
      and c: "clock w2 = clock w + rpcLatency env (clock w)"
    from Cons.prems s have "snd (autoBuyLoop env cfg rest w2) = Inr u" by simp
    from Cons.IH [OF this] show ?thesis by (simp add: s c)
  qed
qed

lemma registeredBy_shift:
  "registeredBy env cfg rest (t0 + rpcLatency env t0) t \<Longrightarrow> registeredBy env cfg (a # rest) t0 t"
  unfolding registeredBy_def by auto

lemma autoBuyLoop_timers:
  "\<exists>new. timers (fst (autoBuyLoop env cfg ws w)) = timers w @ new \<and>
     length new \<le> length ws \<and> (\<forall>t\<in>set new. registeredBy env cfg ws (clock w) t)"
proof (induction ws arbitrary: w)
  case Nil
  show ?case by simp
next
  case (Cons a rest)
  show ?case
  proof (rule autoBuyLoop_step [of env cfg a rest w])
    fix e w2 assume "autoBuyLoop env cfg (a # rest) w = (w2, Inl e)" "timers w2 = timers w"
    then show ?thesis by simp
  next
    fix w2 assume s: "autoBuyLoop env cfg (a # rest) w = autoBuyLoop env cfg rest w2"
      and t: "timers w2 = timers w" and c: "clock w2 = clock w + rpcLatency env (clock w)"
    obtain new where n: "timers (fst (autoBuyLoop env cfg rest w2)) = timers w2 @ new"
        "length new \<le> length rest" "\<forall>t\<in>set new. registeredBy env cfg rest (clock w2) t"
      using Cons.IH [of w2] by blast
    have "\<forall>t\<in>set new. registeredBy env cfg (a # rest) (clock w) t"
      using n(3) c registeredBy_shift by auto
    with n(1,2) show ?thesis by (simp add: s t)
  next
    fix w2 x
    assume s: "autoBuyLoop env cfg (a # rest) w = autoBuyLoop env cfg rest w2"
      and t: "timers w2 = timers w @ [\<lparr>registeredAt = clock w + rpcLatency env (clock w),
          delayMs = randomDelay cfg (random env (Suc (draws w))), buyer = a, buyAmount = x\<rparr>]"
      and x: "\<not> cannotAfford cfg x"
      and c: "clock w2 = clock w + rpcLatency env (clock w)"
    let ?t0 = "\<lparr>registeredAt = clock w + rpcLatency env (clock w),
          delayMs = randomDelay cfg (random env (Suc (draws w))), buyer = a, buyAmount = x\<rparr>"
    obtain new where n: "timers (fst (autoBuyLoop env cfg rest w2)) = timers w2 @ new"
        "length new \<le> length rest" "\<forall>t\<in>set new. registeredBy env cfg rest (clock w2) t"
      using Cons.IH [of w2] by blast
    have r: "\<forall>t\<in>set new. registeredBy env cfg (a # rest) (clock w) t"
      using n(3) c registeredBy_shift by auto
    have r0: "registeredBy env cfg (a # rest) (clock w) ?t0"
      unfolding registeredBy_def using x by auto
    have "timers (fst (autoBuyLoop env cfg (a # rest) w)) = timers w @ (?t0 # new)"
      by (simp add: s n(1) t)
    moreover have "length (?t0 # new) \<le> length (a # rest)" using n(2) by simp
    moreover have "\<forall>t\<in>set (?t0 # new). registeredBy env cfg (a # rest) (clock w) t"
      using r r0 by simp
    ultimately show ?thesis by blast
  qed
qed

subsection \<open>The loop, wallet by wallet\<close>

lemma decisionAt_Cons:
  "decisionAt env cfg (a # rest) t0 (Suc i) d = decisionAt env cfg rest (t0 + rpcLatency env t0) i d"
  by (simp add: decisionAt_def)

lemma skipsAt_Cons:
  "skipsAt env cfg (a # rest) t0 (Suc i) d = skipsAt env cfg rest (t0 + rpcLatency env t0) i d"
  by (simp add: skipsAt_def decisionAt_Cons)

lemma drawsAt_Cons:
  "drawsAt env cfg (a # rest) t0 d0 (Suc i) =
   drawsAt env cfg rest (t0 + rpcLatency env t0) (drawsAt env cfg (a # rest) t0 d0 (Suc 0)) i"
proof -
  define d1 where "d1 = drawsAt env cfg (a # rest) t0 d0 (Suc 0)"
  define t1 where "t1 = t0 + rpcLatency env t0"
  have "drawsAt env cfg (a # rest) t0 d0 (Suc i) = drawsAt env cfg rest t1 d1 i"
  proof (induction i)
    case 0
    show ?case by (simp only: d1_def drawsAt.simps(1))
  next
    case (Suc i)
    have 1: "drawsAt env cfg (a # rest) t0 d0 (Suc (Suc i)) =
        (if skipsAt env cfg (a # rest) t0 (Suc i) X then Suc X else Suc (Suc X))"
      if "X = drawsAt env cfg (a # rest) t0 d0 (Suc i)" for X
      unfolding that by (rule drawsAt.simps(2))
    have "drawsAt env cfg (a # rest) t0 d0 (Suc (Suc i)) =
        (if skipsAt env cfg (a # rest) t0 (Suc i) (drawsAt env cfg rest t1 d1 i)
         then Suc (drawsAt env cfg rest t1 d1 i) else Suc (Suc (drawsAt env cfg rest t1 d1 i)))"
      by (rule 1 [OF Suc.IH [symmetric]])
    also have "\<dots> =
        (if skipsAt env cfg rest t1 i (drawsAt env cfg rest t1 d1 i)
         then Suc (drawsAt env cfg rest t1 d1 i) else Suc (Suc (drawsAt env cfg rest t1 d1 i)))"
      by (simp only: skipsAt_Cons t1_def)
    also have "\<dots> = drawsAt env cfg rest t1 d1 (Suc i)"
      by (rule drawsAt.simps(2) [symmetric])
    finally show ?case .
  qed
  then show ?thesis unfolding d1_def t1_def .
qed

lemma scheduledAt_Cons:
  "scheduledAt env cfg (a # rest) t0 d0 (Suc i) =
   scheduledAt env cfg rest (t0 + rpcLatency env t0) (drawsAt env cfg (a # rest) t0 d0 (Suc 0)) i"
proof -
  define d1 where "d1 = drawsAt env cfg (a # rest) t0 d0 (Suc 0)"
  have dc: "drawsAt env cfg (a # rest) t0 d0 (Suc i) =
      drawsAt env cfg rest (t0 + rpcLatency env t0) d1 i"
    unfolding d1_def by (rule drawsAt_Cons)
  have "scheduledAt env cfg (a # rest) t0 d0 (Suc i) =
      scheduledAt env cfg rest (t0 + rpcLatency env t0) d1 i"
    by (simp only: scheduledAt_def skipsAt_Cons dc)
  then show ?thesis unfolding d1_def .
qed

lemma timerAt_Cons:
  "timerAt env cfg (a # rest) t0 d0 (Suc i) =
   timerAt env cfg rest (t0 + rpcLatency env t0) (drawsAt env cfg (a # rest) t0 d0 (Suc 0)) i"
proof -
  define d1 where "d1 = drawsAt env cfg (a # rest) t0 d0 (Suc 0)"
  have dc: "drawsAt env cfg (a # rest) t0 d0 (Suc i) =
      drawsAt env cfg rest (t0 + rpcLatency env t0) d1 i"
    unfolding d1_def by (rule drawsAt_Cons)
  have "timerAt env cfg (a # rest) t0 d0 (Suc i) =
      timerAt env cfg rest (t0 + rpcLatency env t0) d1 i"
    by (simp only: timerAt_def decisionAt_Cons dc afterQueries.simps nth_Cons_Suc)
  then show ?thesis unfolding d1_def .
qed

lemma schedule_Cons:
  "map (timerAt env cfg (a # rest) t0 d0)
     (filter (scheduledAt env cfg (a # rest) t0 d0) [0..<length (a # rest)]) =
   (if scheduledAt env cfg (a # rest) t0 d0 0 then [timerAt env cfg (a # rest) t0 d0 0] else []) @
   map (timerAt env cfg rest (t0 + rpcLatency env t0) (drawsAt env cfg (a # rest) t0 d0 (Suc 0)))
     (filter (scheduledAt env cfg rest (t0 + rpcLatency env t0)
                (drawsAt env cfg (a # rest) t0 d0 (Suc 0))) [0..<length rest])"
proof -
  let ?T = "timerAt env cfg (a # rest) t0 d0"
  let ?P = "scheduledAt env cfg (a # rest) t0 d0"
  have u: "[0..<length (a # rest)] = 0 # map Suc [0..<length rest]"
    by (simp add: upt_conv_Cons map_Suc_upt del: upt_Suc)
  have "map ?T (filter ?P (map Suc [0..<length rest])) =
        map (\<lambda>i. ?T (Suc i)) (filter (\<lambda>i. ?P (Suc i)) [0..<length rest])"
    by (simp add: filter_map comp_def)
  also have "\<dots> =
      map (timerAt env cfg rest (t0 + rpcLatency env t0) (drawsAt env cfg (a # rest) t0 d0 (Suc 0)))
        (filter (scheduledAt env cfg rest (t0 + rpcLatency env t0)
                   (drawsAt env cfg (a # rest) t0 d0 (Suc 0))) [0..<length rest])"
    by (simp only: timerAt_Cons scheduledAt_Cons)
  finally show ?thesis by (simp only: u filter.simps list.map) simp
qed

lemma autoBuyLoop_schedule:
  "snd (autoBuyLoop env cfg ws w) = Inr u \<Longrightarrow>
   timers (fst (autoBuyLoop env cfg ws w)) =
     timers w @ map (timerAt env cfg ws (clock w) (draws w))
                  (filter (scheduledAt env cfg ws (clock w) (draws w)) [0..<length ws])"
proof (induction ws arbitrary: w)
  case Nil
  show ?case by simp
next
  case (Cons a rest)
  show ?case
  proof (rule autoBuyLoop_step [of env cfg a rest w])
    fix e w2 assume "autoBuyLoop env cfg (a # rest) w = (w2, Inl e)"
    with Cons.prems show ?thesis by simp
  next
    fix w2 c
    assume s: "autoBuyLoop env cfg (a # rest) w = autoBuyLoop env cfg rest w2"
      and t: "timers w2 = timers w"
      and k: "clock w2 = clock w + rpcLatency env (clock w)"
      and d: "draws w2 = Suc (draws w)"
      and dec: "decisionAt env cfg (a # rest) (clock w) 0 (draws w) = Inr c"
      and sk: "cannotAfford cfg c"
    have skip: "skipsAt env cfg (a # rest) (clock w) 0 (draws w)"
      by (simp add: skipsAt_def dec sk)
    then have d1: "drawsAt env cfg (a # rest) (clock w) (draws w) (Suc 0) = Suc (draws w)"
      by simp
    have p0: "\<not> scheduledAt env cfg (a # rest) (clock w) (draws w) 0"
      using skip by (simp add: scheduledAt_def)
    from Cons.prems s have "snd (autoBuyLoop env cfg rest w2) = Inr u" by simp
    from Cons.IH [OF this] show ?thesis
      by (simp only: s t k d schedule_Cons d1 p0 if_False append_Nil)
  next
    fix w2 x
    assume s: "autoBuyLoop env cfg (a # rest) w = autoBuyLoop env cfg rest w2"
      and t: "timers w2 = timers w @ [\<lparr>registeredAt = clock w + rpcLatency env (clock w),
          delayMs = randomDelay cfg (random env (Suc (draws w))), buyer = a, buyAmount = x\<rparr>]"
      and k: "clock w2 = clock w + rpcLatency env (clock w)"
      and d: "draws w2 = Suc (Suc (draws w))"
      and dec: "decisionAt env cfg (a # rest) (clock w) 0 (draws w) = Inr x"
      and sk: "\<not> cannotAfford cfg x"
    have skip: "\<not> skipsAt env cfg (a # rest) (clock w) 0 (draws w)"
      by (simp add: skipsAt_def dec sk)
    then have d1: "drawsAt env cfg (a # rest) (clock w) (draws w) (Suc 0) = Suc (Suc (draws w))"
      by simp
    have p0: "scheduledAt env cfg (a # rest) (clock w) (draws w) 0"
      using skip by (simp add: scheduledAt_def)
    have t0: "timerAt env cfg (a # rest) (clock w) (draws w) 0 =
        \<lparr>registeredAt = clock w + rpcLatency env (clock w),
          delayMs = randomDelay cfg (random env (Suc (draws w))), buyer = a, buyAmount = x\<rparr>"
      by (simp add: timerAt_def dec)
    from Cons.prems s have "snd (autoBuyLoop env cfg rest w2) = Inr u" by simp
    from Cons.IH [OF this] show ?thesis
      by (simp only: s t k d schedule_Cons d1 p0 if_True t0 append_assoc)
  qed
qed

lemma drawsAt_step: "drawsAt env cfg ws t0 d0 i < drawsAt env cfg ws t0 d0 (Suc i)"
  by simp

lemma drawsAt_le:
  "i \<le> j \<Longrightarrow> drawsAt env cfg ws t0 d0 i \<le> drawsAt env cfg ws t0 d0 j"
proof (induction j)
  case 0
  then show ?case by simp
next
  case (Suc j)
  show ?case
  proof (cases "i = Suc j")
    case True
    then show ?thesis by simp
  next
    case False
    with Suc.prems have "i \<le> j" by simp
    from Suc.IH [OF this] drawsAt_step [of env cfg ws t0 d0 j] show ?thesis by linarith
  qed
qed

lemma drawsAt_fresh:
  assumes "scheduledAt env cfg ws t0 d0 i" "i < j"
  shows "Suc (drawsAt env cfg ws t0 d0 i) < drawsAt env cfg ws t0 d0 j"
proof -
  have "drawsAt env cfg ws t0 d0 (Suc i) = Suc (Suc (drawsAt env cfg ws t0 d0 i))"
    using assms(1) by (simp add: scheduledAt_def)
  moreover have "drawsAt env cfg ws t0 d0 (Suc i) \<le> drawsAt env cfg ws t0 d0 j"
    using assms(2) by (intro drawsAt_le) simp
  ultimately show ?thesis by linarith
qed

subsection \<open>The timing of a run\<close>

lemma afterQueries_add:
  "afterQueries env (n + m) t = afterQueries env m (afterQueries env n t)"
  by (induction n arbitrary: t) simp_all

lemma afterQueries_ge: "t \<le> afterQueries env n t"
proof (induction n arbitrary: t)
  case 0
  show ?case by simp
next
  case (Suc n)
  have "t \<le> t + rpcLatency env t" by simp
  also have "\<dots> \<le> afterQueries env n (t + rpcLatency env t)" by (rule Suc.IH)
  finally show ?case by simp
qed

lemma afterQueries_mono:
  assumes "i \<le> n"
  shows "afterQueries env i t \<le> afterQueries env n t"
proof -
  have "afterQueries env n t = afterQueries env (n - i) (afterQueries env i t)"
    using afterQueries_add [of env i "n - i" t] assms by simp
  then show ?thesis by (simp add: afterQueries_ge)
qed

lemma due_after: "registeredAt t < due t"
  by (simp add: due_def)

lemma runAutoBuy_timers:
  "\<exists>new. timers (fst (runAutoBuy env cfg w)) = timers w @ new \<and>
     length new \<le> length (WALLETS cfg) \<and>
     (\<forall>t\<in>set new. registeredBy env cfg (WALLETS cfg) (clock w) t)"
  using autoBuyLoop_timers [of env cfg "WALLETS cfg" "emit (Starting (length (WALLETS cfg))) w"]
  by (simp add: runAutoBuy_def)

lemma runAutoBuy_clock:
  "snd (runAutoBuy env cfg w) = Inr u \<Longrightarrow>
   clock (fst (runAutoBuy env cfg w)) = afterQueries env (length (WALLETS cfg)) (clock w)"
  using autoBuyLoop_clock [of env cfg "WALLETS cfg" "emit (Starting (length (WALLETS cfg))) w" u]
  by (simp add: runAutoBuy_def)

lemma registeredBy_delay:
  "registeredBy env cfg ws t0 t \<Longrightarrow> \<exists>n. delayMs t = randomDelay cfg (random env n)"
  by (simp add: registeredBy_def)

lemma runAutoBuy_schedule:
  "snd (runAutoBuy env cfg w) = Inr u \<Longrightarrow>
   timers (fst (runAutoBuy env cfg w)) =
     timers w @ map (timerAt env cfg (WALLETS cfg) (clock w) (draws w))
                  (filter (scheduledAt env cfg (WALLETS cfg) (clock w) (draws w))
                     [0..<length (WALLETS cfg)])"
  using autoBuyLoop_schedule [of env cfg "WALLETS cfg" "emit (Starting (length (WALLETS cfg))) w" u]
  by (simp add: runAutoBuy_def)

lemma timerAt_fields:
  "registeredAt (timerAt env cfg ws t0 d0 i) = afterQueries env (Suc i) t0"
  "buyer (timerAt env cfg ws t0 d0 i) = ws ! i"
  "delayMs (timerAt env cfg ws t0 d0 i) = randomDelay cfg (random env (Suc (drawsAt env cfg ws t0 d0 i)))"
  by (simp_all add: timerAt_def)

subsection \<open>The entrypoint and the handle\<close>

lemma displayLoop_fields:
  "timers (fst (displayLoop env ws w)) = timers w \<and>
   raydium (fst (displayLoop env ws w)) = raydium w"
  by (induction ws arbitrary: w) (auto simp: awaitGetBalance_def split: sum.splits)

lemma displayWalletBalances_fields:
  "timers (fst (displayWalletBalances env ws w)) = timers w \<and>
   raydium (fst (displayWalletBalances env ws w)) = raydium w"
  using displayLoop_fields [of env ws "emit BalancesHeader w"]
  by (auto simp: displayWalletBalances_def split: prod.splits sum.splits)

lemma initRaydium_timers: "timers (fst (initRaydium env cfg w)) = timers w"
  by (simp add: initRaydium_def Let_def split: sum.splits)

lemma initRaydium_handle:
  "snd (initRaydium env cfg w) = Inr u \<Longrightarrow> \<exists>sdk. raydium (fst (initRaydium env cfg w)) = Some sdk"
  by (simp add: initRaydium_def Let_def split: sum.splits if_splits)

lemma runAutoBuy_handle: "raydium (fst (runAutoBuy env cfg w)) = raydium w"
  by (simp add: runAutoBuy_def autoBuyLoop_handle)

lemma fatal_fields [simp]:
  "timers (fatal e w) = timers w" "raydium (fatal e w) = raydium w"
  by (simp_all add: fatal_def)

lemma main_handle:
  assumes "timers w = []" and "timers (main env cfg w) \<noteq> []"
  shows "\<exists>sdk. raydium (main env cfg w) = Some sdk"
proof -
  let ?w0 = "emit (Info ''Fetching initial balances...'') w"
  obtain w1 r1 where d1: "displayWalletBalances env (WALLETS cfg) ?w0 = (w1, r1)"
    by (cases "displayWalletBalances env (WALLETS cfg) ?w0") auto
  have t1: "timers w1 = []"
    using displayWalletBalances_fields [of env "WALLETS cfg" ?w0] d1 assms(1) by simp
  let ?w1 = "emit (Info ''Initializing Raydium SDK...'') w1"
  obtain w2 r2 where i2: "initRaydium env cfg ?w1 = (w2, r2)"
    by (cases "initRaydium env cfg ?w1") auto
  have t2: "timers w2 = []"
    using initRaydium_timers [of env cfg ?w1] i2 t1 by simp
  let ?w2 = "emit (Info ''Starting the auto-buy process...'') w2"
  obtain w3 r3 where a3: "runAutoBuy env cfg ?w2 = (w3, r3)"
    by (cases "runAutoBuy env cfg ?w2") auto
  let ?w3 = "emit (Info ''Fetching final balances...'') w3"
  obtain w4 r4 where d4: "displayWalletBalances env (WALLETS cfg) ?w3 = (w4, r4)"
    by (cases "displayWalletBalances env (WALLETS cfg) ?w3") auto
  show ?thesis
  proof (cases r1)
    case (Inl e)
    with assms(2) d1 t1 show ?thesis by (simp add: main_def)
  next
    case r1: (Inr u1)
    show ?thesis
    proof (cases r2)
      case (Inl e)
      with assms(2) d1 r1 i2 t2 show ?thesis by (simp add: main_def)
    next
      case r2: (Inr u2)
      obtain sdk where h2: "raydium w2 = Some sdk"
        using initRaydium_handle [of env cfg ?w1 u2] i2 r2 by auto
      have h3: "raydium w3 = Some sdk"
        using runAutoBuy_handle [of env cfg ?w2] a3 h2 by simp
      have h4: "raydium w4 = Some sdk"
        using displayWalletBalances_fields [of env "WALLETS cfg" ?w3] d4 h3 by simp
      show ?thesis
        using d1 r1 i2 r2 a3 d4 h3 h4
        by (cases r3; cases r4) (simp_all add: main_def)
    qed
  qed
qed

subsection \<open>Swap attempts\<close>

lemma performBuy_returns:
  "\<exists>out'. performBuy (Some sdk) cfg now wallet amt out = Inr out'"
  by (simp add: performBuy_def split: prod.splits sum.splits)

lemma filter_isSwapping_TxLink [simp]: "filter isSwapping (map TxLink ids) = []"
  by (induction ids) simp_all

lemma swapOnRoute_lines:
  "length (filter isSwapping (fst (swapOnRoute sdk wallet rd r out))) =
   length (filter isSwapping out)"
  by (simp add: swapOnRoute_def Let_def split: sum.splits)

lemma performBuyTry_lines:
  "length (filter isSwapping (fst (performBuyTry sdk cfg now wallet amt out))) =
   Suc (length (filter isSwapping out))"
proof -
  let ?out = "out @ [Swapping (publicKey wallet) amt (CONTRACT_ADDRESS cfg)]"
  have "length (filter isSwapping (fst (swapOnRoute sdk wallet rd r ?out))) =
        Suc (length (filter isSwapping out))" for rd r
    by (simp add: swapOnRoute_lines)
  then show ?thesis
    by (simp add: performBuyTry_def Let_def split: sum.splits prod.splits)
qed

lemma performBuy_lines:
  assumes "performBuy (Some sdk) cfg now wallet amt out = Inr out'"
  shows "length (filter isSwapping out') = Suc (length (filter isSwapping out))"
proof -
  obtain o1 r where t: "performBuyTry sdk cfg now wallet amt out = (o1, r)"
    by (cases "performBuyTry sdk cfg now wallet amt out") auto
  have l: "length (filter isSwapping o1) = Suc (length (filter isSwapping out))"
    using performBuyTry_lines [of sdk cfg now wallet amt out] t by simp
  show ?thesis
    using assms t l by (cases r) (auto simp: performBuy_def)
qed

lemma fireAll_completes:
  assumes "raydium w = Some sdk"
  shows "\<exists>out'. fireAll w cfg nowOf ts out = Inr out' \<and>
           length (filter isSwapping out') = length (filter isSwapping out) + length ts"
proof (induction ts arbitrary: out)
  case Nil
  show ?case by simp
next
  case (Cons t ts)
  obtain o1 where f: "fireTimer w cfg (nowOf t) t out = Inr o1"
    using performBuy_returns [of sdk cfg "nowOf t" "buyer t" "buyAmount t" out] assms
    by (auto simp: fireTimer_def)
  have l: "length (filter isSwapping o1) = Suc (length (filter isSwapping out))"
    using f assms performBuy_lines [of sdk cfg "nowOf t" "buyer t" "buyAmount t" out o1]
    by (simp add: fireTimer_def)
  obtain o2 where r: "fireAll w cfg nowOf ts o1 = Inr o2"
      "length (filter isSwapping o2) = length (filter isSwapping o1) + length ts"
    using Cons.IH [of o1] by blast
  show ?case using f r l by simp
qed

subsection \<open>Ordering of candidates\<close>

lemma betterRoute_total: "\<not> betterRoute a b \<Longrightarrow> betterRoute b a"
  by (auto simp: betterRoute_def)

lemma betterRoute_trans: "betterRoute a b \<Longrightarrow> betterRoute b c \<Longrightarrow> betterRoute a c"
  by (auto simp: betterRoute_def)

lemma betterRoute_amountOut: "betterRoute a b \<Longrightarrow> amountOut b \<le> amountOut a"
  by (auto simp: betterRoute_def)

lemma set_insertBestFirst: "set (insertBestFirst c cs) = insert c (set cs)"
  by (induction cs) auto

lemma sorted_insertBestFirst:
  "sorted_wrt betterRoute cs \<Longrightarrow> sorted_wrt betterRoute (insertBestFirst c cs)"
proof (induction cs)
  case Nil
  show ?case by simp
next
  case (Cons d ds)
  show ?case
  proof (cases "betterRoute c d")
    case True
    then have "\<forall>x\<in>set ds. betterRoute c x"
      using Cons.prems betterRoute_trans by auto
    with True Cons.prems show ?thesis by simp
  next
    case False
    then have "betterRoute d c" by (rule betterRoute_total)
    with False Cons show ?thesis by (auto simp: set_insertBestFirst)
  qed
qed

lemma set_orderBestFirst: "set (orderBestFirst cs) = set cs"
  by (induction cs) (auto simp: set_insertBestFirst)

lemma sorted_orderBestFirst: "sorted_wrt betterRoute (orderBestFirst cs)"
  by (induction cs) (auto simp: sorted_insertBestFirst)

lemma sorted_wrt_head:
  "sorted_wrt P xs \<Longrightarrow> (\<And>x. P x x) \<Longrightarrow> x \<in> set xs \<Longrightarrow> P (xs ! 0) x"
  by (cases xs) auto

lemma betterRoute_refl: "betterRoute a a"
  by (simp add: betterRoute_def)

lemma set_map_filter:
  "set (List.map_filter f xs) = {y. \<exists>x\<in>set xs. f x = Some y}"
  by (induction xs) (auto split: option.splits)

lemma set_simulateRoutes:
  "set (simulateRoutes simulate paths) = {c. \<exists>p\<in>set paths. simulate p = Some c}"
  by (simp add: simulateRoutes_def set_orderBestFirst set_map_filter)

subsection \<open>Values of concrete runs\<close>

lemma toDouble_exact_tie:
  assumes "0 < x" "2 ^ 52 \<le> x * 2 ^ j" "x * 2 ^ j < 2 ^ 53" "x * 2 ^ j = of_int f + 1 / 2"
  shows "toDouble x = of_int (if even f then f else f + 1) / 2 ^ j"
proof -
  have u: "ulpOf x = 1 / 2 ^ j" using assms(1-3) by (rule ulpOf_scaled)
  have "\<lfloor>x * 2 ^ j\<rfloor> = f" using assms(4) by (intro floor_unique) simp_all
  then have "roundHalfEven (x * 2 ^ j) = (if even f then f else f + 1)"
    using assms(4) by (simp add: roundHalfEven_def)
  then show ?thesis using assms(1) u by (simp add: toDouble_pos)
qed

lemma double_fee: "toDouble (5 / 1000) = 5764607523034235 / 2 ^ 60"
  using toDouble_exact [of "5 / 1000" 60 5764607523034235] by simp

lemma double_tenth: "toDouble (1 / 10) = 7205759403792794 / 2 ^ 56"
  using toDouble_exact [of "1 / 10" 56 7205759403792794] by simp

lemma double_hundredth: "toDouble (1 / 100) = 5764607523034235 / 2 ^ 59"
  using toDouble_exact [of "1 / 100" 59 5764607523034235] by simp

lemma double_balance_half_tenth: "toDouble (50000000 / 1000000000) = 7205759403792794 / 2 ^ 57"
  using toDouble_exact [of "50000000 / 1000000000" 57 7205759403792794] by simp

lemma double_balance_boundary: "toDouble (105000000 / 1000000000) = 7566047373982433 / 2 ^ 56"
  using toDouble_exact [of "105000000 / 1000000000" 56 7566047373982433] by simp

lemma double_available_one: "toDouble (1 - 5764607523034235 / 2 ^ 60) = 8962163258467287 / 2 ^ 53"
  using toDouble_exact [of "1 - 5764607523034235 / 2 ^ 60" 53 8962163258467287] by simp

lemma double_available_half_tenth: "toDouble (7205759403792794 / 2 ^ 57 - 5764607523034235 / 2 ^ 60) = 6485183463413515 / 2 ^ 57"
  using toDouble_exact [of "7205759403792794 / 2 ^ 57 - 5764607523034235 / 2 ^ 60" 57 6485183463413515] by simp

lemma double_available_boundary: "toDouble (7566047373982433 / 2 ^ 56 - 5764607523034235 / 2 ^ 60) = 7205759403792793 / 2 ^ 56"
  using toDouble_exact [of "7566047373982433 / 2 ^ 56 - 5764607523034235 / 2 ^ 60" 56 7205759403792793] by simp

lemma double_fee_again: "toDouble (5764607523034235 / 2 ^ 60) = 5764607523034235 / 2 ^ 60"
  using toDouble_exact [of "5764607523034235 / 2 ^ 60" 60 5764607523034235] by simp

lemma double_span: "toDouble (3 - 7205759403792794 / 2 ^ 56) = 6530219459687219 / 2 ^ 51"
  using toDouble_exact [of "3 - 7205759403792794 / 2 ^ 56" 51 6530219459687219] by simp

lemma double_scaled_half: "toDouble (1 / 2 * (6530219459687219 / 2 ^ 51)) = 6530219459687219 / 2 ^ 52"
  using toDouble_exact [of "1 / 2 * (6530219459687219 / 2 ^ 51)" 52 6530219459687219] by simp

lemma double_desired_half: "toDouble (6530219459687219 / 2 ^ 52 + 7205759403792794 / 2 ^ 56) = 6980579422424269 / 2 ^ 52"
  using toDouble_exact [of "6530219459687219 / 2 ^ 52 + 7205759403792794 / 2 ^ 56" 52 6980579422424269] by simp

lemma double_scaled_eighth: "toDouble (1 / 8 * (6530219459687219 / 2 ^ 51)) = 6530219459687219 / 2 ^ 54"
  using toDouble_exact [of "1 / 8 * (6530219459687219 / 2 ^ 51)" 54 6530219459687219] by simp

lemma double_desired_eighth: "toDouble (6530219459687219 / 2 ^ 54 + 7205759403792794 / 2 ^ 56) = 8331659310635418 / 2 ^ 54"
  using toDouble_exact_tie [of "6530219459687219 / 2 ^ 54 + 7205759403792794 / 2 ^ 56" 54 8331659310635417] by simp

lemma double_scaled_three_eighths: "toDouble (3 / 8 * (6530219459687219 / 2 ^ 51)) = 4897664594765414 / 2 ^ 52"
  using toDouble_exact [of "3 / 8 * (6530219459687219 / 2 ^ 51)" 52 4897664594765414] by simp

lemma double_desired_three_eighths: "toDouble (4897664594765414 / 2 ^ 52 + 7205759403792794 / 2 ^ 56) = 5348024557502464 / 2 ^ 52"
  using toDouble_exact [of "4897664594765414 / 2 ^ 52 + 7205759403792794 / 2 ^ 56" 52 5348024557502464] by simp

lemma double_scaled_five_eighths: "toDouble (5 / 8 * (6530219459687219 / 2 ^ 51)) = 8162774324609024 / 2 ^ 52"
  using toDouble_exact [of "5 / 8 * (6530219459687219 / 2 ^ 51)" 52 8162774324609024] by simp

lemma double_desired_five_eighths: "toDouble (8162774324609024 / 2 ^ 52 + 7205759403792794 / 2 ^ 56) = 8613134287346074 / 2 ^ 52"
  using toDouble_exact [of "8162774324609024 / 2 ^ 52 + 7205759403792794 / 2 ^ 56" 52 8613134287346074] by simp

lemma double_delay_half: "toDouble (4901 / 2) = 5388706487730176 / 2 ^ 41"
  using toDouble_exact [of "4901 / 2" 41 5388706487730176] by simp

lemma double_delay_quarter: "toDouble (4901 / 4) = 5388706487730176 / 2 ^ 42"
  using toDouble_exact [of "4901 / 4" 42 5388706487730176] by simp

lemma double_delay_three_quarters: "toDouble (14703 / 4) = 8083059731595264 / 2 ^ 41"
  using toDouble_exact [of "14703 / 4" 41 8083059731595264] by simp

lemma double_three_halves: "toDouble (3 / 2) = 6755399441055744 / 2 ^ 52"
  using toDouble_exact [of "3 / 2" 52 6755399441055744] by simp

lemma double_unit: "toDouble 1 = 1"
  using toDouble_of_int [of 1] by simp

lemma double_three: "toDouble 3 = 3"
  using toDouble_of_int [of 3] by simp

lemma double_billion: "toDouble 1000000000 = 1000000000"
  using toDouble_of_int [of 1000000000] by simp

lemma double_small_balances:
  "toDouble 50000000 = 50000000" "toDouble 105000000 = 105000000"
  using toDouble_of_int [of 50000000] toDouble_of_int [of 105000000] by simp_all

lemma fee_value: "FEE_BUFFER_SOL = 5764607523034235 / 2 ^ 60"
  by (simp only: FEE_BUFFER_SOL_def double_fee)

lemma available_one:
  "toDouble (toDouble (toDouble (of_nat 1000000000) / LAMPORTS_PER_SOL) - FEE_BUFFER_SOL) = 8962163258467287 / 2 ^ 53"
proof -
  have a: "toDouble (of_nat 1000000000) = 1000000000" using double_billion by simp
  have b: "(1000000000 :: rat) / LAMPORTS_PER_SOL = 1" by (simp add: LAMPORTS_PER_SOL_def)
  show ?thesis by (simp only: a b double_unit fee_value double_available_one)
qed

lemma available_half_tenth:
  "toDouble (toDouble (toDouble (of_nat 50000000) / LAMPORTS_PER_SOL) - FEE_BUFFER_SOL) = 6485183463413515 / 2 ^ 57"
proof -
  have a: "toDouble (of_nat 50000000) = 50000000" using double_small_balances by simp
  show ?thesis
    by (simp only: a LAMPORTS_PER_SOL_def double_balance_half_tenth fee_value
          double_available_half_tenth)
qed

lemma available_boundary:
  "toDouble (toDouble (toDouble (of_nat 105000000) / LAMPORTS_PER_SOL) - FEE_BUFFER_SOL) = 7205759403792793 / 2 ^ 56"
proof -
  have a: "toDouble (of_nat 105000000) = 105000000" using double_small_balances by simp
  show ?thesis
    by (simp only: a LAMPORTS_PER_SOL_def double_balance_boundary fee_value
          double_available_boundary)
qed

lemma available_empty:
  "toDouble (toDouble (toDouble (of_nat 0) / LAMPORTS_PER_SOL) - FEE_BUFFER_SOL) = - (5764607523034235 / 2 ^ 60)"
proof -
  have "toDouble (- (5764607523034235 / 2 ^ 60)) = - (5764607523034235 / 2 ^ 60)"
    by (simp only: toDouble_minus double_fee_again)
  then show ?thesis by (simp add: fee_value)
qed

lemma available_values:
  "toDouble (toDouble (toDouble 1000000000 / LAMPORTS_PER_SOL) - FEE_BUFFER_SOL) = 8962163258467287 / 2 ^ 53"
  "toDouble (toDouble (toDouble 50000000 / LAMPORTS_PER_SOL) - FEE_BUFFER_SOL) = 6485183463413515 / 2 ^ 57"
  "toDouble (toDouble (toDouble 105000000 / LAMPORTS_PER_SOL) - FEE_BUFFER_SOL) = 7205759403792793 / 2 ^ 56"
  "toDouble (- FEE_BUFFER_SOL) = - (5764607523034235 / 2 ^ 60)"
  using available_one available_half_tenth available_boundary available_empty by simp_all

lemma capBuyAmount_at:
  assumes "getBalance env (clock w) (publicKey wallet) = Inr lamports"
    and "toDouble (toDouble (toDouble (of_nat lamports) / LAMPORTS_PER_SOL) - FEE_BUFFER_SOL) = a"
  shows "capBuyAmount env cfg wallet d w =
     (w\<lparr>clock := clock w + rpcLatency env (clock w)\<rparr>,
      Inr (if a < MIN_BUY_AMOUNT_SOL cfg then 0 else min d a))"
proof (rule prod_eqI)
  show "fst (capBuyAmount env cfg wallet d w) =
      fst (w\<lparr>clock := clock w + rpcLatency env (clock w)\<rparr>,
        Inr (if a < MIN_BUY_AMOUNT_SOL cfg then 0 else min d a))"
    by (simp add: capBuyAmount_fst)
  show "snd (capBuyAmount env cfg wallet d w) =
      snd (w\<lparr>clock := clock w + rpcLatency env (clock w)\<rparr>,
        Inr (if a < MIN_BUY_AMOUNT_SOL cfg then 0 else min d a))"
    using capBuyAmount_value [OF assms(1), of cfg d] by (simp only: assms(2) snd_conv)
qed

lemma demoConfigFor_fields:
  "WALLETS (demoConfigFor ws m) = ws" "CONTRACT_ADDRESS (demoConfigFor ws m) = ''TokenMint''"
  "MIN_BUY_AMOUNT_SOL (demoConfigFor ws m) = toDouble m" "MAX_BUY_AMOUNT_SOL (demoConfigFor ws m) = 3"
  "MIN_DELAY (demoConfigFor ws m) = 100" "MAX_DELAY (demoConfigFor ws m) = 5000"
  by (simp_all add: demoConfigFor_def)

lemma demoConfig_fields:
  "WALLETS (demoConfig m) = [demoWallet]" "CONTRACT_ADDRESS (demoConfig m) = ''TokenMint''"
  "MIN_BUY_AMOUNT_SOL (demoConfig m) = toDouble m" "MAX_BUY_AMOUNT_SOL (demoConfig m) = 3"
  "MIN_DELAY (demoConfig m) = 100" "MAX_DELAY (demoConfig m) = 5000"
  by (simp_all add: demoConfig_def demoConfigFor_fields)

lemma demoEnv_fields:
  "rpcLatency (demoEnv lamports r) t = 20" "random (demoEnv lamports r) = (\<lambda>n. r)"
  "getBalance (demoEnv lamports r) t pk = Inr lamports"
  "fromSecretKey (demoEnv lamports r) k = Inr (Blob 0)"
  "raydiumLoad (demoEnv lamports r) =
     Inr (demoSdk [route950, route900] (Inl (Error ''submission rejected'')))"
  by (simp_all add: demoEnv_def)

lemma variedEnv_fields:
  "rpcLatency (variedEnv b) t = 20"
  "random (variedEnv b) n = (1 + of_nat (n mod 7)) / 8"
  "getBalance (variedEnv b) t pk = Inr (b pk)"
  by (simp_all add: variedEnv_def)

lemma variedEnv_draws:
  "0 \<le> random (variedEnv b) n \<and> random (variedEnv b) n \<le> 1 - 1 / 2 ^ 53"
proof -
  have "n mod 7 \<le> 6" by simp
  then have "(of_nat (n mod 7) :: rat) \<le> of_nat 6" by (simp only: of_nat_le_iff)
  then have "(1 + of_nat (n mod 7)) / 8 \<le> (7 :: rat) / 8" by simp
  moreover have "(7 :: rat) / 8 \<le> 1 - 1 / 2 ^ 53" by simp
  ultimately have "(1 + of_nat (n mod 7)) / 8 \<le> (1 :: rat) - 1 / 2 ^ 53" by (rule order_trans)
  then show ?thesis by (simp add: variedEnv_fields)
qed

lemma threeWallets_fields:
  "length threeWallets = 3" "threeWallets ! 0 = demoWallet"
  "threeWallets ! Suc 0 = demoWalletB" "threeWallets ! 2 = demoWalletC"
  by (simp_all add: threeWallets_def)

lemma initWorld_fields:
  "clock initWorld = 0" "timers initWorld = []" "raydium initWorld = None" "draws initWorld = 0"
  by (simp_all add: initWorld_def)

lemma demoWallet_fields:
  "publicKey demoWallet = ''WalletA''" "secretKey demoWallet = [1, 2, 3]"
  "publicKey demoWalletB = ''WalletB''" "publicKey demoWalletC = ''WalletC''"
  by (simp_all add: demoWallet_def demoWalletB_def demoWalletC_def)

lemma demo_desired:
  "desiredAmount (demoConfigFor ws (1 / 10)) (1 / 2) = 6980579422424269 / 2 ^ 52"
  "desiredAmount (demoConfigFor ws (1 / 10)) (1 / 8) = 8331659310635418 / 2 ^ 54"
  "desiredAmount (demoConfigFor ws (1 / 10)) (3 / 8) = 5348024557502464 / 2 ^ 52"
  "desiredAmount (demoConfigFor ws (1 / 10)) (5 / 8) = 8613134287346074 / 2 ^ 52"
  by (simp_all only: desiredAmount_def demoConfigFor_fields double_tenth double_span
        double_scaled_half double_desired_half double_scaled_eighth double_desired_eighth
        double_scaled_three_eighths double_desired_three_eighths
        double_scaled_five_eighths double_desired_five_eighths)

lemma demo_desired_zero_floor: "desiredAmount (demoConfigFor ws 0) (1 / 2) = 3 / 2"
  by (simp add: desiredAmount_def demoConfigFor_fields double_three double_three_halves)

lemma demo_delays:
  "randomDelay (demoConfigFor ws m) (1 / 2) = 2550"
  "randomDelay (demoConfigFor ws m) (1 / 4) = 1325"
  "randomDelay (demoConfigFor ws m) (3 / 4) = 3775"
  "randomDelay (demoConfigFor ws m) (5 / 8) = 3163"
proof -
  have p: "randomDelay (demoConfigFor ws m) r = \<lfloor>toDouble (r * 4901)\<rfloor> + 100"
    if "0 \<le> r" "r \<le> 1 - 1 / 2 ^ 53" for r
    using randomDelay_plain(1) [of "demoConfigFor ws m" r] that
    by (simp add: demoConfigFor_fields)
  have f1: "\<lfloor>(4901 :: rat) / 2\<rfloor> = 2450" by (rule floor_unique) simp_all
  have f2: "\<lfloor>(4901 :: rat) / 4\<rfloor> = 1225" by (rule floor_unique) simp_all
  have f3: "\<lfloor>(14703 :: rat) / 4\<rfloor> = 3675" by (rule floor_unique) simp_all
  have f4: "\<lfloor>(24505 :: rat) / 8\<rfloor> = 3063" by (rule floor_unique) simp_all
  have d4: "toDouble (24505 / 8) = 24505 / 8"
    using toDouble_exact [of "24505 / 8" 41 6735883109662720] by simp
  have d1: "toDouble (4901 / 2) = 4901 / 2" using double_delay_half by simp
  have d2: "toDouble (4901 / 4) = 4901 / 4" using double_delay_quarter by simp
  have d3: "toDouble (14703 / 4) = 14703 / 4" using double_delay_three_quarters by simp
  show "randomDelay (demoConfigFor ws m) (1 / 2) = 2550" using p [of "1 / 2"] by (simp add: d1 f1)
  show "randomDelay (demoConfigFor ws m) (1 / 4) = 1325" using p [of "1 / 4"] by (simp add: d2 f2)
  show "randomDelay (demoConfigFor ws m) (3 / 4) = 3775" using p [of "3 / 4"] by (simp add: d3 f3)
  show "randomDelay (demoConfigFor ws m) (5 / 8) = 3163" using p [of "5 / 8"] by (simp add: d4 f4)
qed

lemmas run_defs = main_def runAutoBuy_def autoBuyLoop.simps(2) displayWalletBalances_def initRaydium_def
  awaitGetBalance_def mathRandom_def emit_def setTimeout_def fatal_def cannotAfford_def Let_def

lemmas demo_values = demoConfig_def demoConfigFor_fields demoEnv_fields variedEnv_fields
  demoWallet_fields demo_desired demo_delays double_tenth double_billion double_unit
  LAMPORTS_PER_SOL_def

lemma demo_main:
  "main (demoEnv 1000000000 (1 / 2)) (demoConfig (1 / 10)) initWorld =
    \<lparr>clock = 80, draws = 2,
     console = [Info ''Fetching initial balances...'', BalancesHeader, BalanceLine ''WalletA'' 1,
      BalancesFooter, Info ''Initializing Raydium SDK...'',
      Info ''Raydium SDK initialized successfully.'', Info ''Starting the auto-buy process...'',
      Starting 1, WillBuy ''WalletA'' (8962163258467287 / 2 ^ 53) 2550, Info ''Fetching final balances...'',
      BalancesHeader, BalanceLine ''WalletA'' 1, BalancesFooter],
     timers = [\<lparr>registeredAt = 60, delayMs = 2550, buyer = demoWallet, buyAmount = 8962163258467287 / 2 ^ 53\<rparr>],
     raydium = Some (demoSdk [route950, route900] (Inl (Error ''submission rejected''))),
     exitCode = None\<rparr>"
  by (simp add: run_defs demo_values initWorld_def
        capBuyAmount_at [OF demoEnv_fields(3) available_one])

lemmas capBuyAmount_full = capBuyAmount_at [where lamports = 1000000000, OF _ available_one]

lemmas capBuyAmount_low = capBuyAmount_at [where lamports = 50000000, OF _ available_half_tenth]

lemma demo_three_wallets:
  "runAutoBuy (variedEnv fullBalances) (demoConfigFor threeWallets (1 / 10)) initWorld =
    (\<lparr>clock = 60, draws = 6,
      console = [Starting 3, WillBuy ''WalletA'' (8331659310635418 / 2 ^ 54) 1325,
         WillBuy ''WalletB'' (8962163258467287 / 2 ^ 53) 2550, WillBuy ''WalletC'' (8962163258467287 / 2 ^ 53) 3775],
      timers =
        [\<lparr>registeredAt = 20, delayMs = 1325, buyer = demoWallet, buyAmount = 8331659310635418 / 2 ^ 54\<rparr>,
         \<lparr>registeredAt = 40, delayMs = 2550, buyer = demoWalletB, buyAmount = 8962163258467287 / 2 ^ 53\<rparr>,
         \<lparr>registeredAt = 60, delayMs = 3775, buyer = demoWalletC, buyAmount = 8962163258467287 / 2 ^ 53\<rparr>],
      raydium = None, exitCode = None\<rparr>, Inr ())"
  by (simp add: run_defs demo_values initWorld_def threeWallets_def fullBalances_def
        capBuyAmount_full)

lemma demo_mixed_wallets:
  "runAutoBuy (variedEnv mixedBalances) (demoConfigFor threeWallets (1 / 10)) initWorld =
    (\<lparr>clock = 60, draws = 5,
      console = [Starting 3, WillBuy ''WalletA'' (8331659310635418 / 2 ^ 54) 1325,
         SkipWarn ''WalletB'' (7205759403792794 / 2 ^ 56), WillBuy ''WalletC'' (8962163258467287 / 2 ^ 53) 3163],
      timers =
        [\<lparr>registeredAt = 20, delayMs = 1325, buyer = demoWallet, buyAmount = 8331659310635418 / 2 ^ 54\<rparr>,
         \<lparr>registeredAt = 60, delayMs = 3163, buyer = demoWalletC, buyAmount = 8962163258467287 / 2 ^ 53\<rparr>],
      raydium = None, exitCode = None\<rparr>, Inr ())"
  by (simp add: run_defs demo_values initWorld_def threeWallets_def mixedBalances_def
        capBuyAmount_full capBuyAmount_low)

lemma three_indices: "[0..<3] = [0, Suc 0, Suc (Suc 0)]"
  by (simp add: numeral_3_eq_3)

lemma demo_full_scheduled:
  "scheduledAt (variedEnv fullBalances) (demoConfigFor threeWallets (1 / 10)) threeWallets 0 0 0"
  "scheduledAt (variedEnv fullBalances) (demoConfigFor threeWallets (1 / 10)) threeWallets 0 0 (Suc 0)"
  "scheduledAt (variedEnv fullBalances) (demoConfigFor threeWallets (1 / 10)) threeWallets 0 0 (Suc (Suc 0))"
  by (simp_all add: scheduledAt_def skipsAt_def decisionAt_def cannotAfford_def demo_values
        threeWallets_def fullBalances_def capBuyAmount_full)

lemma demo_mixed_scheduled:
  "scheduledAt (variedEnv mixedBalances) (demoConfigFor threeWallets (1 / 10)) threeWallets 0 0 0"
  "\<not> scheduledAt (variedEnv mixedBalances) (demoConfigFor threeWallets (1 / 10)) threeWallets 0 0 (Suc 0)"
  "scheduledAt (variedEnv mixedBalances) (demoConfigFor threeWallets (1 / 10)) threeWallets 0 0 (Suc (Suc 0))"
  by (simp_all add: scheduledAt_def skipsAt_def decisionAt_def cannotAfford_def demo_values
        threeWallets_def mixedBalances_def capBuyAmount_full capBuyAmount_low)

lemma demo_zero_floor:
  "runAutoBuy (demoEnv 0 (1 / 2)) (demoConfig 0) initWorld =
    (\<lparr>clock = 20, draws = 2,
      console = [Starting 1, WillBuy ''WalletA'' 0 2550],
      timers = [\<lparr>registeredAt = 20, delayMs = 2550, buyer = demoWallet, buyAmount = 0\<rparr>],
      raydium = None, exitCode = None\<rparr>, Inr ())"
  by (simp add: run_defs demoConfig_def demoConfigFor_fields demoEnv_fields demoWallet_fields
        demo_desired_zero_floor demo_delays initWorld_def
        capBuyAmount_at [OF demoEnv_fields(3) available_empty])

lemma demo_performBuyTry:
  "performBuyTry (demoSdk [route950, route900] (Inl (Error ''submission rejected'')))
          (demoConfig (1 / 10)) n demoWallet a [] =
     ([Swapping ''WalletA'' a ''TokenMint'', BestRoute 100 950 ''amm''],
      Inl (Error ''submission rejected''))"
  by (simp add: performBuyTry_def fetchSwapRoutes_def selectBestRoute_def swapOnRoute_def
        demoSdk_def demoConfig_fields Let_def demoRouteData_def demoWallet_fields route950_def)

lemma demo_performBuy:
  "performBuy (Some (demoSdk [route950, route900] (Inl (Error ''submission rejected''))))
       (demoConfig (1 / 10)) n demoWallet a [] =
     Inr [Swapping ''WalletA'' a ''TokenMint'', BestRoute 100 950 ''amm'',
          BuyError ''WalletA'' (Error ''submission rejected'')]"
  by (simp add: performBuy_def demo_performBuyTry demoWallet_fields)

section \<open>The claims\<close>

subsection \<open>Amount Capper\<close>

text \<open>
  C1. When the balance query answers with \<open>lamports\<close>, \<open>capBuyAmount\<close> computes
  \<open>available = balance - feeBuffer\<close> in double precision, returns exactly 0 if
  \<open>available < minAllowed\<close> and \<open>min desiredAmount available\<close> otherwise. In
  particular, if the computed \<open>available\<close> is at least \<open>desiredAmount\<close> and at
  least \<open>minAllowed\<close>, it returns exactly \<open>desiredAmount\<close>.
\<close>

theorem capBuyAmount_cap_rule:
  assumes "getBalance env (clock w) (publicKey wallet) = Inr lamports"
  shows "snd (capBuyAmount env cfg wallet desired w) =
     Inr (let available = toDouble (toDouble (toDouble (of_nat lamports) / LAMPORTS_PER_SOL) - FEE_BUFFER_SOL)
          in if available < MIN_BUY_AMOUNT_SOL cfg then 0 else min desired available)
   \<and> (desired \<le> toDouble (toDouble (toDouble (of_nat lamports) / LAMPORTS_PER_SOL) - FEE_BUFFER_SOL) \<and>
      MIN_BUY_AMOUNT_SOL cfg \<le> toDouble (toDouble (toDouble (of_nat lamports) / LAMPORTS_PER_SOL) - FEE_BUFFER_SOL) \<longrightarrow>
      snd (capBuyAmount env cfg wallet desired w) = Inr desired)"
  using capBuyAmount_value [OF assms, of cfg desired] by (auto simp: Let_def)

text \<open>A wallet holding 1 SOL that wants 0.5 SOL, with a floor of 0.1 SOL, gets 0.5 SOL.\<close>

theorem capBuyAmount_cap_rule_witness:
  "getBalance (demoEnv 1000000000 (1 / 2)) (clock initWorld) (publicKey demoWallet) = Inr 1000000000 \<and>
   toDouble (toDouble (toDouble (of_nat 1000000000) / LAMPORTS_PER_SOL) - FEE_BUFFER_SOL) = 8962163258467287 / 2 ^ 53 \<and>
   (1 / 2 :: rat) \<le> toDouble (toDouble (toDouble (of_nat 1000000000) / LAMPORTS_PER_SOL) - FEE_BUFFER_SOL) \<and>
   MIN_BUY_AMOUNT_SOL (demoConfig (1 / 10)) \<le> toDouble (toDouble (toDouble (of_nat 1000000000) / LAMPORTS_PER_SOL) - FEE_BUFFER_SOL) \<and>
   snd (capBuyAmount (demoEnv 1000000000 (1 / 2)) (demoConfig (1 / 10)) demoWallet (1 / 2) initWorld) =
     Inr (1 / 2)"
  using capBuyAmount_cap_rule [of "demoEnv 1000000000 (1 / 2)" initWorld demoWallet 1000000000
      "demoConfig (1 / 10)" "1 / 2"]
  by (simp add: available_values demoEnv_fields demoConfig_fields double_tenth)

text \<open>
  C1 as stated, for every desired amount, fails below the floor: a wallet holding
  0.05 SOL has 0.045 SOL available, which covers a desired 0.01 SOL, but with a floor of
  0.1 SOL the capper returns 0 and not 0.01.
\<close>

theorem capBuyAmount_no_reduction_counterexample:
  "getBalance (demoEnv 50000000 (1 / 2)) (clock initWorld) (publicKey demoWallet) = Inr 50000000 \<and>
   (1 / 100 :: rat) \<le> 50000000 / 1000000000 - 5 / 1000 \<and>
   toDouble (1 / 100) \<le> toDouble (toDouble (toDouble (of_nat 50000000) / LAMPORTS_PER_SOL) - FEE_BUFFER_SOL) \<and>
   snd (capBuyAmount (demoEnv 50000000 (1 / 2)) (demoConfig (1 / 10)) demoWallet (toDouble (1 / 100))
          initWorld) = Inr 0 \<and>
   snd (capBuyAmount (demoEnv 50000000 (1 / 2)) (demoConfig (1 / 10)) demoWallet (toDouble (1 / 100))
          initWorld) \<noteq> Inr (toDouble (1 / 100))"
  by (simp add: capBuyAmount_at [OF demoEnv_fields(3) available_half_tenth] available_values
        demoEnv_fields demoConfig_fields double_tenth double_hundredth)

text \<open>
  The comparison is made on the computed doubles. A wallet holding 0.105 SOL has
  exactly 0.1 SOL left after the fee buffer, but the double subtraction gives the double
  just below the double 0.1: with a floor of 0.1 SOL and a desired 0.1 SOL the capper
  returns 0.
\<close>

theorem capBuyAmount_rounding_boundary:
  "(1 / 10 :: rat) \<le> 105000000 / 1000000000 - 5 / 1000 \<and>
   toDouble (1 / 10) = 7205759403792794 / 2 ^ 56 \<and>
   toDouble (toDouble (toDouble (of_nat 105000000) / LAMPORTS_PER_SOL) - FEE_BUFFER_SOL) = 7205759403792793 / 2 ^ 56 \<and>
   snd (capBuyAmount (demoEnv 105000000 (1 / 2)) (demoConfig (1 / 10)) demoWallet (toDouble (1 / 10))
          initWorld) = Inr 0"
  by (simp add: capBuyAmount_at [OF demoEnv_fields(3) available_boundary] available_values
        demoConfig_fields double_tenth)

text \<open>
  C2. For every wallet, every nonnegative desired amount and every nonnegative minimum
  amount, the amount the capper returns is at most the desired amount and at least 0.
\<close>

theorem capBuyAmount_bounds:
  assumes "0 \<le> desired" and "0 \<le> MIN_BUY_AMOUNT_SOL cfg"
    and "snd (capBuyAmount env cfg wallet desired w) = Inr capped"
  shows "capped \<le> desired \<and> 0 \<le> capped"
proof -
  obtain lamports where b: "getBalance env (clock w) (publicKey wallet) = Inr lamports"
    using capBuyAmount_Inr_balance [OF assms(3)] by blast
  show ?thesis
    using capBuyAmount_value [OF b, of cfg desired] assms
    by (auto split: if_splits)
qed

text \<open>
  Scenario 1 of the specification: 1 SOL, floor 0.1 SOL, desired 1.5 SOL gives the
  double 0.995 SOL.
\<close>

theorem capBuyAmount_bounds_witness:
  "(0 :: rat) \<le> 3 / 2 \<and> 0 \<le> MIN_BUY_AMOUNT_SOL (demoConfig (1 / 10)) \<and>
   snd (capBuyAmount (demoEnv 1000000000 (1 / 2)) (demoConfig (1 / 10)) demoWallet (3 / 2) initWorld) =
     Inr (8962163258467287 / 2 ^ 53) \<and>
   (8962163258467287 / 2 ^ 53 :: rat) \<le> 3 / 2 \<and> (0 :: rat) \<le> 8962163258467287 / 2 ^ 53"
  using capBuyAmount_bounds [of "3 / 2" "demoConfig (1 / 10)" "demoEnv 1000000000 (1 / 2)"
      demoWallet initWorld "8962163258467287 / 2 ^ 53"]
  by (simp add: capBuyAmount_at [OF demoEnv_fields(3) available_one] demoConfig_fields double_tenth)

text \<open>
  C9. The capper returns either 0 or a value of at least the floor, and the skip test
  of the orchestrator (\<open>cappedAmount < minAmount\<close>) is to hold exactly when the
  capper returned 0. In this run the floor is 0 and the wallet is empty: the capper
  returns 0 from its guard (the available amount, minus the fee buffer, is below the
  floor), the skip test \<open>0 < 0\<close> does not hold, and the orchestrator announces and
  registers a buy of 0 SOL instead of skipping the wallet.
\<close>

theorem zero_buy_not_skipped:
  "MIN_BUY_AMOUNT_SOL (demoConfig 0) = 0 \<and>
   desiredAmount (demoConfig 0) (1 / 2) = 3 / 2 \<and>
   MIN_BUY_AMOUNT_SOL (demoConfig 0) \<le> desiredAmount (demoConfig 0) (1 / 2) \<and>
   toDouble (toDouble (toDouble (of_nat 0) / LAMPORTS_PER_SOL) - FEE_BUFFER_SOL) < MIN_BUY_AMOUNT_SOL (demoConfig 0) \<and>
   snd (capBuyAmount (demoEnv 0 (1 / 2)) (demoConfig 0) demoWallet (3 / 2) initWorld) = Inr 0 \<and>
   \<not> cannotAfford (demoConfig 0) 0 \<and>
   console (fst (runAutoBuy (demoEnv 0 (1 / 2)) (demoConfig 0) initWorld)) =
     [Starting 1, WillBuy ''WalletA'' 0 2550] \<and>
   timers (fst (runAutoBuy (demoEnv 0 (1 / 2)) (demoConfig 0) initWorld)) =
     [\<lparr>registeredAt = 20, delayMs = 2550, buyer = demoWallet, buyAmount = 0\<rparr>]"
  by (simp add: demo_zero_floor capBuyAmount_at [OF demoEnv_fields(3) available_empty]
        available_values demoConfig_fields demo_desired_zero_floor [of "[demoWallet]", folded demoConfig_def]
        cannotAfford_def)

subsection \<open>Route selection\<close>

text \<open>
  C3. A non-empty candidate list is ordered best-first: the simulated output amounts
  do not increase along the list and the candidate at index 0 has the highest one; and
  \<open>performBuy\<close> goes on with exactly the candidate at index 0.
\<close>

theorem best_route_first_selected:
  assumes "simulateRoutes simulate paths \<noteq> []"
  shows "sorted_wrt (\<lambda>a b. amountOut b \<le> amountOut a) (simulateRoutes simulate paths) \<and>
         (\<forall>c\<in>set (simulateRoutes simulate paths).
            amountOut c \<le> amountOut (simulateRoutes simulate paths ! 0)) \<and>
         selectBestRoute (simulateRoutes simulate paths) = Inr (simulateRoutes simulate paths ! 0) \<and>
         (fetchSwapRoutes sdk cfg now (mathRound (toDouble (amt * LAMPORTS_PER_SOL))) =
            Inr (rd, simulateRoutes simulate paths) \<longrightarrow>
          performBuyTry sdk cfg now wallet amt out =
            swapOnRoute sdk wallet rd (simulateRoutes simulate paths ! 0)
              (out @ [Swapping (publicKey wallet) amt (CONTRACT_ADDRESS cfg)]))"
proof -
  let ?cs = "simulateRoutes simulate paths"
  have s: "sorted_wrt betterRoute ?cs"
    by (simp add: simulateRoutes_def sorted_orderBestFirst)
  have s1: "sorted_wrt (\<lambda>a b. amountOut b \<le> amountOut a) ?cs"
    by (rule sorted_wrt_mono_rel [OF _ s]) (simp add: betterRoute_amountOut)
  have s2: "\<forall>c\<in>set ?cs. amountOut c \<le> amountOut (?cs ! 0)"
    using sorted_wrt_head [OF s1] by simp
  have s3: "selectBestRoute ?cs = Inr (?cs ! 0)"
    using assms by (simp add: selectBestRoute_def)
  show ?thesis
    using s1 s2 s3 by (simp add: performBuyTry_def Let_def)
qed

text \<open>
  Scenario 3 of the specification: two routes with simulated outputs 900 and 950; the 950
  route comes first and is the one the swap is built on.
\<close>

theorem best_route_first_selected_witness:
  "simulateRoutes Some [route900, route950] = [route950, route900] \<and>
   simulateRoutes Some [route900, route950] \<noteq> [] \<and>
   route900 \<in> set (simulateRoutes Some [route900, route950]) \<and>
   amountOut route900 \<le> amountOut (simulateRoutes Some [route900, route950] ! 0) \<and>
   selectBestRoute (simulateRoutes Some [route900, route950]) = Inr route950 \<and>
   fetchSwapRoutes (demoSdk [route950, route900] (Inr [''tx1''])) (demoConfig (1 / 10)) 0
       (mathRound (toDouble (1 * LAMPORTS_PER_SOL))) =
     Inr (demoRouteData, simulateRoutes Some [route900, route950]) \<and>
   performBuyTry (demoSdk [route950, route900] (Inr [''tx1''])) (demoConfig (1 / 10)) 0 demoWallet 1 [] =
     swapOnRoute (demoSdk [route950, route900] (Inr [''tx1''])) demoWallet demoRouteData route950
       [Swapping ''WalletA'' 1 ''TokenMint'']"
proof -
  have o: "simulateRoutes Some [route900, route950] = [route950, route900]"
    by (simp add: simulateRoutes_def map_filter_simps betterRoute_def route900_def route950_def)
  have f: "fetchSwapRoutes (demoSdk [route950, route900] (Inr [''tx1''])) (demoConfig (1 / 10)) 0
       (mathRound (toDouble (1 * LAMPORTS_PER_SOL))) = Inr (demoRouteData, [route950, route900])"
    by (simp add: fetchSwapRoutes_def demoSdk_def demoConfig_fields Let_def)
      (simp add: demoRouteData_def)
  show ?thesis
    using best_route_first_selected [of Some "[route900, route950]"
        "demoSdk [route950, route900] (Inr [''tx1''])" "demoConfig (1 / 10)" 0 1 demoRouteData
        demoWallet "[]"] f
    by (simp add: o demoConfig_fields demoWallet_fields)
qed

text \<open>
  C4. The route step of \<open>performBuy\<close> raises its error exactly when the list of
  candidates is empty; otherwise it hands on the candidate at index 0 of a non-empty
  list. An empty list is never passed on: the attempt ends with the error logged.
\<close>

theorem empty_routes_raise:
  "((\<exists>e. selectBestRoute swapRoutes = Inl e) \<longleftrightarrow> swapRoutes = []) \<and>
   (\<forall>r. selectBestRoute swapRoutes = Inr r \<longrightarrow> swapRoutes \<noteq> [] \<and> r = swapRoutes ! 0) \<and>
   (fetchSwapRoutes sdk cfg now (mathRound (toDouble (amt * LAMPORTS_PER_SOL))) = Inr (rd, []) \<longrightarrow>
      performBuy (Some sdk) cfg now wallet amt out =
        Inr (out @ [Swapping (publicKey wallet) amt (CONTRACT_ADDRESS cfg),
                    BuyError (publicKey wallet) (Error ''No swap routes found for this pair.'')]))"
  by (auto simp: selectBestRoute_def performBuy_def performBuyTry_def Let_def)

theorem empty_routes_raise_witness:
  "selectBestRoute [] = Inl (Error ''No swap routes found for this pair.'') \<and>
   selectBestRoute [route950, route900] = Inr route950 \<and>
   fetchSwapRoutes (demoSdk [] (Inr [''tx1''])) (demoConfig (1 / 10)) 0
       (mathRound (toDouble (1 * LAMPORTS_PER_SOL))) = Inr (demoRouteData, []) \<and>
   performBuy (Some (demoSdk [] (Inr [''tx1'']))) (demoConfig (1 / 10)) 0 demoWallet 1 [] =
     Inr [Swapping ''WalletA'' 1 ''TokenMint'',
          BuyError ''WalletA'' (Error ''No swap routes found for this pair.'')]"
proof -
  have f: "fetchSwapRoutes (demoSdk [] (Inr [''tx1''])) (demoConfig (1 / 10)) 0
       (mathRound (toDouble (1 * LAMPORTS_PER_SOL))) = Inr (demoRouteData, [])"
    by (simp add: fetchSwapRoutes_def demoSdk_def demoConfig_fields Let_def)
      (simp add: demoRouteData_def)
  show ?thesis
    using empty_routes_raise [of "[]" "demoSdk [] (Inr [''tx1''])" "demoConfig (1 / 10)" 0 1
        demoRouteData demoWallet "[]"]
      empty_routes_raise [of "[route950, route900]" "demoSdk [] (Inr [''tx1''])"
        "demoConfig (1 / 10)" 0 1 demoRouteData demoWallet "[]"] f
    by (simp add: selectBestRoute_def demoConfig_fields demoWallet_fields)
qed

subsection \<open>Swap Executor\<close>

text \<open>
  C5. Whatever step of the \<^verbatim>\<open>try\<close> block fails, \<open>performBuy\<close> with an initialised
  handle returns normally, and the console then ends with the error line that carries the
  wallet's address and the reason. For the timers that the entrypoint registers, fired
  in any order, no rejection leaves a callback: every one of them starts its attempt.
\<close>

theorem performBuy_isolates_failure:
  "(\<exists>out'. performBuy (Some sdk) cfg now wallet amt out = Inr out' \<and>
      (\<forall>e. snd (performBuyTry sdk cfg now wallet amt out) = Inl e \<longrightarrow>
         out' = fst (performBuyTry sdk cfg now wallet amt out) @ [BuyError (publicKey wallet) e])) \<and>
   (set ts \<subseteq> set (timers (main env cfg initWorld)) \<longrightarrow>
      (\<exists>out'. fireAll (main env cfg initWorld) cfg nowOf ts out = Inr out' \<and>
         length (filter isSwapping out') = length (filter isSwapping out) + length ts))"
proof -
  have a: "\<exists>out'. performBuy (Some sdk) cfg now wallet amt out = Inr out' \<and>
      (\<forall>e. snd (performBuyTry sdk cfg now wallet amt out) = Inl e \<longrightarrow>
         out' = fst (performBuyTry sdk cfg now wallet amt out) @ [BuyError (publicKey wallet) e])"
    by (cases "performBuyTry sdk cfg now wallet amt out") (auto simp: performBuy_def split: sum.splits)
  have b: "\<exists>out'. fireAll (main env cfg initWorld) cfg nowOf ts out = Inr out' \<and>
         length (filter isSwapping out') = length (filter isSwapping out) + length ts"
    if s: "set ts \<subseteq> set (timers (main env cfg initWorld))"
  proof (cases ts)
    case Nil
    then show ?thesis by simp
  next
    case (Cons t ts')
    with s have "timers (main env cfg initWorld) \<noteq> []" by auto
    then obtain h where "raydium (main env cfg initWorld) = Some h"
      using main_handle [of initWorld env cfg] by (auto simp: initWorld_def)
    then show ?thesis by (rule fireAll_completes)
  qed
  from a b show ?thesis by blast
qed

text \<open>
  Scenario 4 of the specification in one wallet: the submission is rejected, the rejection
  is logged with the wallet's address, and the callback returns.
\<close>

theorem performBuy_isolates_failure_witness:
  "snd (performBuyTry (demoSdk [route950, route900] (Inl (Error ''submission rejected'')))
          (demoConfig (1 / 10)) 0 demoWallet (8962163258467287 / 2 ^ 53) []) = Inl (Error ''submission rejected'') \<and>
   performBuy (Some (demoSdk [route950, route900] (Inl (Error ''submission rejected''))))
       (demoConfig (1 / 10)) 0 demoWallet (8962163258467287 / 2 ^ 53) [] =
     Inr [Swapping ''WalletA'' (8962163258467287 / 2 ^ 53) ''TokenMint'', BestRoute 100 950 ''amm'',
          BuyError ''WalletA'' (Error ''submission rejected'')] \<and>
   timers (main (demoEnv 1000000000 (1 / 2)) (demoConfig (1 / 10)) initWorld) \<noteq> [] \<and>
   fireAll (main (demoEnv 1000000000 (1 / 2)) (demoConfig (1 / 10)) initWorld) (demoConfig (1 / 10)) due
       (timers (main (demoEnv 1000000000 (1 / 2)) (demoConfig (1 / 10)) initWorld)) [] =
     Inr [Swapping ''WalletA'' (8962163258467287 / 2 ^ 53) ''TokenMint'', BestRoute 100 950 ''amm'',
          BuyError ''WalletA'' (Error ''submission rejected'')]"
  using performBuy_isolates_failure [of
      "demoSdk [route950, route900] (Inl (Error ''submission rejected''))" "demoConfig (1 / 10)"
      0 demoWallet "8962163258467287 / 2 ^ 53" "[]"
      "timers (main (demoEnv 1000000000 (1 / 2)) (demoConfig (1 / 10)) initWorld)"
      "demoEnv 1000000000 (1 / 2)" due]
  by (simp add: demo_main fireTimer_def demo_performBuy demo_performBuyTry)

text \<open>
  C10. With an uninitialised handle \<open>performBuy\<close> throws from the guard in front of
  the \<^verbatim>\<open>try\<close> block, so its own handler does not catch the error. The entrypoint
  awaits the initialisation before it starts the orchestrator, and a failed
  initialisation ends the run before any timer is registered: whenever a timer is
  registered the handle is set, and the callback returns normally.
\<close>

theorem uninitialized_guard_unreachable:
  "performBuy None cfg now wallet amt out = Inl (Error ''Raydium SDK is not initialized.'') \<and>
   (\<forall>t\<in>set (timers (main env cfg initWorld)).
      (\<exists>sdk. raydium (main env cfg initWorld) = Some sdk) \<and>
      (\<exists>out'. fireTimer (main env cfg initWorld) cfg now' t out0 = Inr out'))"
proof -
  have "(\<exists>sdk. raydium (main env cfg initWorld) = Some sdk) \<and>
      (\<exists>out'. fireTimer (main env cfg initWorld) cfg now' t out0 = Inr out')"
    if "t \<in> set (timers (main env cfg initWorld))" for t
  proof -
    from that have "timers (main env cfg initWorld) \<noteq> []" by auto
    then obtain h where h: "raydium (main env cfg initWorld) = Some h"
      using main_handle [of initWorld env cfg] by (auto simp: initWorld_def)
    then show ?thesis
      using performBuy_returns [of h cfg now' "buyer t" "buyAmount t" out0]
      by (simp add: fireTimer_def)
  qed
  then show ?thesis by (simp add: performBuy_def)
qed

theorem uninitialized_guard_unreachable_witness:
  "performBuy None (demoConfig (1 / 10)) 0 demoWallet (8962163258467287 / 2 ^ 53) [] =
     Inl (Error ''Raydium SDK is not initialized.'') \<and>
   timers (main (demoEnv 1000000000 (1 / 2)) (demoConfig (1 / 10)) initWorld) =
     [\<lparr>registeredAt = 60, delayMs = 2550, buyer = demoWallet, buyAmount = 8962163258467287 / 2 ^ 53\<rparr>] \<and>
   raydium (main (demoEnv 1000000000 (1 / 2)) (demoConfig (1 / 10)) initWorld) =
     Some (demoSdk [route950, route900] (Inl (Error ''submission rejected''))) \<and>
   fireTimer (main (demoEnv 1000000000 (1 / 2)) (demoConfig (1 / 10)) initWorld)
       (demoConfig (1 / 10)) 2610
       \<lparr>registeredAt = 60, delayMs = 2550, buyer = demoWallet, buyAmount = 8962163258467287 / 2 ^ 53\<rparr> [] =
     Inr [Swapping ''WalletA'' (8962163258467287 / 2 ^ 53) ''TokenMint'', BestRoute 100 950 ''amm'',
          BuyError ''WalletA'' (Error ''submission rejected'')]"
  using uninitialized_guard_unreachable [of "demoConfig (1 / 10)" 0 demoWallet "8962163258467287 / 2 ^ 53" "[]"
      "demoEnv 1000000000 (1 / 2)" 2610 "[]"]
  by (simp add: demo_main fireTimer_def demo_performBuy)

subsection \<open>Buy Orchestrator and entrypoint\<close>

text \<open>
  C6. \<^verbatim>\<open>Math.random()\<close> yields the doubles of \<open>[0, 1)\<close>, the largest of which is
  \<open>1 - 1 / 2 ^ 53\<close>; the two bounds are integers of magnitude at most \<open>2 ^ 51\<close> with
  \<open>MIN_DELAY \<le> MAX_DELAY\<close>. Then every timer that \<open>runAutoBuy\<close> registers has an
  integer delay within \<open>[MIN_DELAY, MAX_DELAY]\<close>. In a run that returns, the delays of
  the registered timers are, in order, those of the wallets that pass the skip test, and
  the delay of the wallet at index \<open>i\<close> is \<open>randomDelay\<close> of the draw that follows
  the draw of its amount; that draw is used by no later wallet. The delay is uniform
  in the draw up to one rounding: \<open>randomDelay cfg r\<close> is \<open>k\<close> when the exact
  product \<open>r * (MAX_DELAY - MIN_DELAY + 1)\<close> lies in \<open>[k - MIN_DELAY, k - MIN_DELAY + 1)\<close>
  with a margin of one relative rounding error at the upper end, and only when it lies
  there with that margin at the lower end.
\<close>

theorem randomDelay_within_range:
  assumes "\<forall>n. 0 \<le> random env n \<and> random env n \<le> 1 - 1 / 2 ^ 53"
    and "\<bar>MIN_DELAY cfg\<bar> \<le> 2 ^ 51" and "\<bar>MAX_DELAY cfg\<bar> \<le> 2 ^ 51"
    and "MIN_DELAY cfg \<le> MAX_DELAY cfg" and "timers w = []"
  shows "(\<forall>t\<in>set (timers (fst (runAutoBuy env cfg w))).
            MIN_DELAY cfg \<le> delayMs t \<and> delayMs t \<le> MAX_DELAY cfg) \<and>
         (snd (runAutoBuy env cfg w) = Inr () \<longrightarrow>
            map delayMs (timers (fst (runAutoBuy env cfg w))) =
              map (\<lambda>i. randomDelay cfg
                         (random env (Suc (drawsAt env cfg (WALLETS cfg) (clock w) (draws w) i))))
                (filter (scheduledAt env cfg (WALLETS cfg) (clock w) (draws w))
                   [0..<length (WALLETS cfg)])) \<and>
         (\<forall>i j. scheduledAt env cfg (WALLETS cfg) (clock w) (draws w) i \<and> i < j \<longrightarrow>
            Suc (drawsAt env cfg (WALLETS cfg) (clock w) (draws w) i)
              < drawsAt env cfg (WALLETS cfg) (clock w) (draws w) j) \<and>
         (\<forall>r k. 0 \<le> r \<and> r \<le> 1 - 1 / 2 ^ 53 \<longrightarrow>
            (of_int (k - MIN_DELAY cfg) \<le> r * of_int (MAX_DELAY cfg - MIN_DELAY cfg + 1) \<and>
             r * of_int (MAX_DELAY cfg - MIN_DELAY cfg + 1) * (1 + 1 / 2 ^ 53)
               < of_int (k - MIN_DELAY cfg) + 1 \<longrightarrow>
             randomDelay cfg r = k) \<and>
            (randomDelay cfg r = k \<longrightarrow>
             of_int (k - MIN_DELAY cfg)
               \<le> r * of_int (MAX_DELAY cfg - MIN_DELAY cfg + 1) * (1 + 1 / 2 ^ 53) \<and>
             r * of_int (MAX_DELAY cfg - MIN_DELAY cfg + 1) < of_int (k - MIN_DELAY cfg) + 1))"
proof -
  obtain new where n: "timers (fst (runAutoBuy env cfg w)) = timers w @ new"
      "\<forall>t\<in>set new. registeredBy env cfg (WALLETS cfg) (clock w) t"
    using runAutoBuy_timers [of env cfg w] by blast
  have d: "MIN_DELAY cfg \<le> delayMs t \<and> delayMs t \<le> MAX_DELAY cfg" if "t \<in> set new" for t
  proof -
    have "registeredBy env cfg (WALLETS cfg) (clock w) t" using n(2) that by (rule bspec)
    then obtain k where k: "delayMs t = randomDelay cfg (random env k)"
      using registeredBy_delay by blast
    have "0 \<le> random env k" "random env k \<le> 1 - 1 / 2 ^ 53" using assms(1) by simp_all
    with assms(2-4) have "MIN_DELAY cfg \<le> randomDelay cfg (random env k) \<and>
        randomDelay cfg (random env k) \<le> MAX_DELAY cfg"
      by (rule randomDelay_range)
    then show ?thesis by (simp only: k)
  qed
  have c1: "\<forall>t\<in>set (timers (fst (runAutoBuy env cfg w))).
            MIN_DELAY cfg \<le> delayMs t \<and> delayMs t \<le> MAX_DELAY cfg"
    using d by (simp add: n(1) assms(5))
  have c2: "map delayMs (timers (fst (runAutoBuy env cfg w))) =
              map (\<lambda>i. randomDelay cfg
                         (random env (Suc (drawsAt env cfg (WALLETS cfg) (clock w) (draws w) i))))
                (filter (scheduledAt env cfg (WALLETS cfg) (clock w) (draws w))
                   [0..<length (WALLETS cfg)])"
    if "snd (runAutoBuy env cfg w) = Inr ()"
    using runAutoBuy_schedule [OF that] by (simp add: assms(5) timerAt_fields comp_def)
  have c3: "Suc (drawsAt env cfg (WALLETS cfg) (clock w) (draws w) i)
              < drawsAt env cfg (WALLETS cfg) (clock w) (draws w) j"
    if "scheduledAt env cfg (WALLETS cfg) (clock w) (draws w) i \<and> i < j" for i j
    using that drawsAt_fresh [of env cfg "WALLETS cfg" "clock w" "draws w" i j] by simp
  have c4: "randomDelay cfg r = k"
    if "0 \<le> r \<and> r \<le> 1 - 1 / 2 ^ 53"
      and "of_int (k - MIN_DELAY cfg) \<le> r * of_int (MAX_DELAY cfg - MIN_DELAY cfg + 1) \<and>
           r * of_int (MAX_DELAY cfg - MIN_DELAY cfg + 1) * (1 + 1 / 2 ^ 53)
             < of_int (k - MIN_DELAY cfg) + 1" for r k
    using randomDelay_inner [OF assms(2-4), of r k] that by simp
  have c5: "of_int (k - MIN_DELAY cfg)
               \<le> r * of_int (MAX_DELAY cfg - MIN_DELAY cfg + 1) * (1 + 1 / 2 ^ 53) \<and>
             r * of_int (MAX_DELAY cfg - MIN_DELAY cfg + 1) < of_int (k - MIN_DELAY cfg) + 1"
    if "0 \<le> r \<and> r \<le> 1 - 1 / 2 ^ 53" and "randomDelay cfg r = k" for r k
    using randomDelay_outer [OF assms(2-4), of r k] that by simp
  show ?thesis
  proof (intro conjI allI impI)
    show "\<forall>t\<in>set (timers (fst (runAutoBuy env cfg w))).
            MIN_DELAY cfg \<le> delayMs t \<and> delayMs t \<le> MAX_DELAY cfg"
      by (rule c1)
  next
    assume "snd (runAutoBuy env cfg w) = Inr ()"
    then show "map delayMs (timers (fst (runAutoBuy env cfg w))) =
              map (\<lambda>i. randomDelay cfg
                         (random env (Suc (drawsAt env cfg (WALLETS cfg) (clock w) (draws w) i))))
                (filter (scheduledAt env cfg (WALLETS cfg) (clock w) (draws w))
                   [0..<length (WALLETS cfg)])"
      by (rule c2)
  next
    fix i j assume "scheduledAt env cfg (WALLETS cfg) (clock w) (draws w) i \<and> i < j"
    then show "Suc (drawsAt env cfg (WALLETS cfg) (clock w) (draws w) i)
              < drawsAt env cfg (WALLETS cfg) (clock w) (draws w) j"
      by (rule c3)
  next
    fix r :: rat and k :: int
    assume "0 \<le> r \<and> r \<le> 1 - 1 / 2 ^ 53"
      and "of_int (k - MIN_DELAY cfg) \<le> r * of_int (MAX_DELAY cfg - MIN_DELAY cfg + 1) \<and>
           r * of_int (MAX_DELAY cfg - MIN_DELAY cfg + 1) * (1 + 1 / 2 ^ 53)
             < of_int (k - MIN_DELAY cfg) + 1"
    then show "randomDelay cfg r = k" by (rule c4)
  next
    fix r :: rat and k :: int
    assume a: "0 \<le> r \<and> r \<le> 1 - 1 / 2 ^ 53" and b: "randomDelay cfg r = k"
    from c5 [OF a b] show "of_int (k - MIN_DELAY cfg)
               \<le> r * of_int (MAX_DELAY cfg - MIN_DELAY cfg + 1) * (1 + 1 / 2 ^ 53)" ..
    from c5 [OF a b] show "r * of_int (MAX_DELAY cfg - MIN_DELAY cfg + 1) < of_int (k - MIN_DELAY cfg) + 1" ..
  qed
qed

text \<open>
  Three wallets holding 1 SOL each, the default range of 100 to 5000 ms, and the draws
  1/8, 2/8, 3/8, ...: the amounts take the draws 1/8, 3/8 and 5/8, the delays the draws
  1/4, 1/2 and 3/4, which give 1325, 2550 and 3775 ms.
\<close>

theorem randomDelay_within_range_witness:
  "(\<forall>n. 0 \<le> random (variedEnv fullBalances) n \<and> random (variedEnv fullBalances) n \<le> 1 - 1 / 2 ^ 53) \<and>
   \<bar>MIN_DELAY (demoConfigFor threeWallets (1 / 10))\<bar> \<le> 2 ^ 51 \<and>
   \<bar>MAX_DELAY (demoConfigFor threeWallets (1 / 10))\<bar> \<le> 2 ^ 51 \<and>
   MIN_DELAY (demoConfigFor threeWallets (1 / 10)) \<le> MAX_DELAY (demoConfigFor threeWallets (1 / 10)) \<and>
   timers initWorld = [] \<and>
   snd (runAutoBuy (variedEnv fullBalances) (demoConfigFor threeWallets (1 / 10)) initWorld) = Inr () \<and>
   map delayMs
     (timers (fst (runAutoBuy (variedEnv fullBalances) (demoConfigFor threeWallets (1 / 10)) initWorld))) =
     [1325, 2550, 3775] \<and>
   map (random (variedEnv fullBalances)) [1, 3, 5] = [1 / 4, 1 / 2, 3 / 4] \<and>
   map (randomDelay (demoConfigFor threeWallets (1 / 10))) [1 / 4, 1 / 2, 3 / 4] = [1325, 2550, 3775] \<and>
   (1225 :: rat) \<le> 1 / 4 * 4901 \<and> (1 / 4 * 4901 * (1 + 1 / 2 ^ 53) :: rat) < 1226 \<and>
   randomDelay (demoConfigFor threeWallets (1 / 10)) (1 / 4) = 1325"
proof -
  let ?env = "variedEnv fullBalances" and ?cfg = "demoConfigFor threeWallets (1 / 10)"
  have h1: "\<forall>n. 0 \<le> random ?env n \<and> random ?env n \<le> 1 - 1 / 2 ^ 53"
    by (intro allI) (rule variedEnv_draws)
  have h2: "\<bar>MIN_DELAY ?cfg\<bar> \<le> 2 ^ 51" by (simp add: demoConfigFor_fields)
  have h3: "\<bar>MAX_DELAY ?cfg\<bar> \<le> 2 ^ 51" by (simp add: demoConfigFor_fields)
  have h4: "MIN_DELAY ?cfg \<le> MAX_DELAY ?cfg" by (simp add: demoConfigFor_fields)
  have h5: "timers initWorld = []" by (simp add: initWorld_fields)
  note t = randomDelay_within_range [OF h1 h2 h3 h4 h5]
  have r: "snd (runAutoBuy ?env ?cfg initWorld) = Inr ()" by (simp add: demo_three_wallets)
  have m: "map delayMs (timers (fst (runAutoBuy ?env ?cfg initWorld))) = [1325, 2550, 3775]"
    by (simp add: demo_three_wallets)
  have d: "map (random ?env) [1, 3, 5] = [1 / 4, 1 / 2, 3 / 4]"
    by (simp add: variedEnv_fields)
  have e: "map (randomDelay ?cfg) [1 / 4, 1 / 2, 3 / 4] = [1325, 2550, 3775]"
    by (simp add: demo_delays)
  have s1: "(1225 :: rat) \<le> 1 / 4 * 4901" by simp
  have s2: "(1 / 4 * 4901 * (1 + 1 / 2 ^ 53) :: rat) < 1226" by simp
  have u: "randomDelay ?cfg (1 / 4) = 1325"
    using t [THEN conjunct2, THEN conjunct2, THEN conjunct2, rule_format, of "1 / 4" 1325]
    by (simp add: demoConfigFor_fields)
  from h1 h2 h3 h4 h5 r m d e s1 s2 u show ?thesis by (intro conjI)
qed

text \<open>
  C7. A run of \<open>runAutoBuy\<close> that returns has waited for nothing but the balance
  queries, one per wallet: its clock at the end is the clock after that many RPC round
  trips, whatever delays were drawn and however long a swap takes. It registers exactly
  one timer for every wallet that passes the skip test, in the order of the wallets,
  and none for the others. The timer of the wallet at index \<open>i\<close> carries that wallet
  and the amount the capper gave it, is registered right after \<open>i + 1\<close> round trips,
  no later than the end of the run, and is due strictly later than it was registered.
  The run only appends timers; the handle is left as it was.
\<close>

theorem runAutoBuy_fire_and_forget:
  assumes "snd (runAutoBuy env cfg w) = Inr u"
  shows "clock (fst (runAutoBuy env cfg w)) = afterQueries env (length (WALLETS cfg)) (clock w) \<and>
         raydium (fst (runAutoBuy env cfg w)) = raydium w \<and>
         timers (fst (runAutoBuy env cfg w)) =
           timers w @ map (timerAt env cfg (WALLETS cfg) (clock w) (draws w))
                        (filter (scheduledAt env cfg (WALLETS cfg) (clock w) (draws w))
                           [0..<length (WALLETS cfg)]) \<and>
         (\<forall>i<length (WALLETS cfg).
            (scheduledAt env cfg (WALLETS cfg) (clock w) (draws w) i \<longleftrightarrow>
               (\<exists>c. decisionAt env cfg (WALLETS cfg) (clock w) i
                       (drawsAt env cfg (WALLETS cfg) (clock w) (draws w) i) = Inr c \<and>
                    \<not> cannotAfford cfg c \<and>
                    buyAmount (timerAt env cfg (WALLETS cfg) (clock w) (draws w) i) = c)) \<and>
            buyer (timerAt env cfg (WALLETS cfg) (clock w) (draws w) i) = WALLETS cfg ! i \<and>
            registeredAt (timerAt env cfg (WALLETS cfg) (clock w) (draws w) i) =
              afterQueries env (Suc i) (clock w) \<and>
            registeredAt (timerAt env cfg (WALLETS cfg) (clock w) (draws w) i)
              \<le> clock (fst (runAutoBuy env cfg w)) \<and>
            registeredAt (timerAt env cfg (WALLETS cfg) (clock w) (draws w) i)
              < due (timerAt env cfg (WALLETS cfg) (clock w) (draws w) i))"
proof -
  let ?t = "timerAt env cfg (WALLETS cfg) (clock w) (draws w)"
  have c: "clock (fst (runAutoBuy env cfg w)) = afterQueries env (length (WALLETS cfg)) (clock w)"
    using assms by (rule runAutoBuy_clock)
  have s: "scheduledAt env cfg (WALLETS cfg) (clock w) (draws w) i \<longleftrightarrow>
               (\<exists>c. decisionAt env cfg (WALLETS cfg) (clock w) i
                       (drawsAt env cfg (WALLETS cfg) (clock w) (draws w) i) = Inr c \<and>
                    \<not> cannotAfford cfg c \<and> buyAmount (?t i) = c)" for i
    by (cases "decisionAt env cfg (WALLETS cfg) (clock w) i
                 (drawsAt env cfg (WALLETS cfg) (clock w) (draws w) i)")
      (simp_all add: scheduledAt_def skipsAt_def timerAt_def)
  have l: "registeredAt (?t i) \<le> clock (fst (runAutoBuy env cfg w))"
    if "i < length (WALLETS cfg)" for i
  proof -
    have "Suc i \<le> length (WALLETS cfg)" using that by simp
    then have "afterQueries env (Suc i) (clock w) \<le> afterQueries env (length (WALLETS cfg)) (clock w)"
      by (rule afterQueries_mono)
    then show ?thesis by (simp only: c timerAt_fields)
  qed
  show ?thesis
  proof (intro conjI allI impI)
    show "clock (fst (runAutoBuy env cfg w)) = afterQueries env (length (WALLETS cfg)) (clock w)"
      by (rule c)
    show "raydium (fst (runAutoBuy env cfg w)) = raydium w"
      by (rule runAutoBuy_handle)
    show "timers (fst (runAutoBuy env cfg w)) =
           timers w @ map ?t (filter (scheduledAt env cfg (WALLETS cfg) (clock w) (draws w))
                           [0..<length (WALLETS cfg)])"
      using assms by (rule runAutoBuy_schedule)
  next
    fix i
    show "scheduledAt env cfg (WALLETS cfg) (clock w) (draws w) i \<longleftrightarrow>
               (\<exists>c. decisionAt env cfg (WALLETS cfg) (clock w) i
                       (drawsAt env cfg (WALLETS cfg) (clock w) (draws w) i) = Inr c \<and>
                    \<not> cannotAfford cfg c \<and> buyAmount (?t i) = c)"
      by (rule s)
    show "buyer (?t i) = WALLETS cfg ! i" by (rule timerAt_fields)
    show "registeredAt (?t i) = afterQueries env (Suc i) (clock w)" by (rule timerAt_fields)
    show "registeredAt (?t i) < due (?t i)" by (rule due_after)
  next
    fix i assume "i < length (WALLETS cfg)"
    then show "registeredAt (?t i) \<le> clock (fst (runAutoBuy env cfg w))" by (rule l)
  qed
qed

text \<open>
  Three wallets holding 1 SOL each: the run ends after three round trips, at 60 ms,
  with three timers registered at 20, 40 and 60 ms and due at 1345, 2590 and 3835 ms;
  the second and the third wallet are decided long before the first timer is due. When
  the second wallet holds only 0.05 SOL, the first and the third wallet get their
  timers, registered at 20 and 60 ms, and the second wallet gets none.
\<close>

theorem runAutoBuy_fire_and_forget_witness:
  "snd (runAutoBuy (variedEnv fullBalances) (demoConfigFor threeWallets (1 / 10)) initWorld) = Inr () \<and>
   clock (fst (runAutoBuy (variedEnv fullBalances) (demoConfigFor threeWallets (1 / 10)) initWorld)) = 60 \<and>
   afterQueries (variedEnv fullBalances) 3 0 = 60 \<and>
   filter (scheduledAt (variedEnv fullBalances) (demoConfigFor threeWallets (1 / 10)) threeWallets 0 0)
     [0..<3] = [0, Suc 0, Suc (Suc 0)] \<and>
   timers (fst (runAutoBuy (variedEnv fullBalances) (demoConfigFor threeWallets (1 / 10)) initWorld)) =
     [\<lparr>registeredAt = 20, delayMs = 1325, buyer = demoWallet, buyAmount = 8331659310635418 / 2 ^ 54\<rparr>,
      \<lparr>registeredAt = 40, delayMs = 2550, buyer = demoWalletB, buyAmount = 8962163258467287 / 2 ^ 53\<rparr>,
      \<lparr>registeredAt = 60, delayMs = 3775, buyer = demoWalletC, buyAmount = 8962163258467287 / 2 ^ 53\<rparr>] \<and>
   map (timerAt (variedEnv fullBalances) (demoConfigFor threeWallets (1 / 10)) threeWallets 0 0)
     [0, Suc 0, Suc (Suc 0)] =
     [\<lparr>registeredAt = 20, delayMs = 1325, buyer = demoWallet, buyAmount = 8331659310635418 / 2 ^ 54\<rparr>,
      \<lparr>registeredAt = 40, delayMs = 2550, buyer = demoWalletB, buyAmount = 8962163258467287 / 2 ^ 53\<rparr>,
      \<lparr>registeredAt = 60, delayMs = 3775, buyer = demoWalletC, buyAmount = 8962163258467287 / 2 ^ 53\<rparr>] \<and>
   map due
     [\<lparr>registeredAt = 20, delayMs = 1325, buyer = demoWallet, buyAmount = 8331659310635418 / 2 ^ 54\<rparr>,
      \<lparr>registeredAt = 40, delayMs = 2550, buyer = demoWalletB, buyAmount = 8962163258467287 / 2 ^ 53\<rparr>,
      \<lparr>registeredAt = 60, delayMs = 3775, buyer = demoWalletC, buyAmount = 8962163258467287 / 2 ^ 53\<rparr>] =
     [1345, 2590, 3835] \<and>
   snd (runAutoBuy (variedEnv mixedBalances) (demoConfigFor threeWallets (1 / 10)) initWorld) = Inr () \<and>
   clock (fst (runAutoBuy (variedEnv mixedBalances) (demoConfigFor threeWallets (1 / 10)) initWorld)) = 60 \<and>
   afterQueries (variedEnv mixedBalances) 3 0 = 60 \<and>
   filter (scheduledAt (variedEnv mixedBalances) (demoConfigFor threeWallets (1 / 10)) threeWallets 0 0)
     [0..<3] = [0, Suc (Suc 0)] \<and>
   timers (fst (runAutoBuy (variedEnv mixedBalances) (demoConfigFor threeWallets (1 / 10)) initWorld)) =
     [\<lparr>registeredAt = 20, delayMs = 1325, buyer = demoWallet, buyAmount = 8331659310635418 / 2 ^ 54\<rparr>,
      \<lparr>registeredAt = 60, delayMs = 3163, buyer = demoWalletC, buyAmount = 8962163258467287 / 2 ^ 53\<rparr>] \<and>
   map (timerAt (variedEnv mixedBalances) (demoConfigFor threeWallets (1 / 10)) threeWallets 0 0)
     [0, Suc (Suc 0)] =
     [\<lparr>registeredAt = 20, delayMs = 1325, buyer = demoWallet, buyAmount = 8331659310635418 / 2 ^ 54\<rparr>,
      \<lparr>registeredAt = 60, delayMs = 3163, buyer = demoWalletC, buyAmount = 8962163258467287 / 2 ^ 53\<rparr>] \<and>
   map due
     [\<lparr>registeredAt = 20, delayMs = 1325, buyer = demoWallet, buyAmount = 8331659310635418 / 2 ^ 54\<rparr>,
      \<lparr>registeredAt = 60, delayMs = 3163, buyer = demoWalletC, buyAmount = 8962163258467287 / 2 ^ 53\<rparr>] = [1345, 3223]"
proof -
  let ?full = "variedEnv fullBalances" and ?env = "variedEnv mixedBalances"
    and ?cfg = "demoConfigFor threeWallets (1 / 10)"
  let ?tA = "\<lparr>registeredAt = 20, delayMs = 1325, buyer = demoWallet, buyAmount = 8331659310635418 / 2 ^ 54\<rparr>"
  let ?tB = "\<lparr>registeredAt = 40, delayMs = 2550, buyer = demoWalletB, buyAmount = 8962163258467287 / 2 ^ 53\<rparr>"
  let ?tC = "\<lparr>registeredAt = 60, delayMs = 3775, buyer = demoWalletC, buyAmount = 8962163258467287 / 2 ^ 53\<rparr>"
  let ?tD = "\<lparr>registeredAt = 60, delayMs = 3163, buyer = demoWalletC, buyAmount = 8962163258467287 / 2 ^ 53\<rparr>"
  have r1: "snd (runAutoBuy ?full ?cfg initWorld) = Inr ()" by (simp add: demo_three_wallets)
  note t1 = runAutoBuy_fire_and_forget [OF r1]
  have c1: "clock (fst (runAutoBuy ?full ?cfg initWorld)) = 60" by (simp add: demo_three_wallets)
  have a1: "afterQueries ?full 3 0 = 60"
    using t1 [THEN conjunct1] by (simp add: c1 demoConfigFor_fields threeWallets_fields initWorld_fields)
  have f1: "filter (scheduledAt ?full ?cfg threeWallets 0 0) [0..<3] = [0, Suc 0, Suc (Suc 0)]"
    by (simp add: three_indices demo_full_scheduled)
  have n1: "timers (fst (runAutoBuy ?full ?cfg initWorld)) = [?tA, ?tB, ?tC]"
    by (simp add: demo_three_wallets)
  have m1: "map (timerAt ?full ?cfg threeWallets 0 0) [0, Suc 0, Suc (Suc 0)] = [?tA, ?tB, ?tC]"
    using t1 [THEN conjunct2, THEN conjunct2, THEN conjunct1]
    by (simp only: n1 demoConfigFor_fields threeWallets_fields initWorld_fields f1 append_Nil)
  have d1: "map due [?tA, ?tB, ?tC] = [1345, 2590, 3835]" by (simp add: due_def)
  have r: "snd (runAutoBuy ?env ?cfg initWorld) = Inr ()" by (simp add: demo_mixed_wallets)
  note t = runAutoBuy_fire_and_forget [OF r]
  have c: "clock (fst (runAutoBuy ?env ?cfg initWorld)) = 60" by (simp add: demo_mixed_wallets)
  have a: "afterQueries ?env 3 0 = 60"
    using t [THEN conjunct1] by (simp add: c demoConfigFor_fields threeWallets_fields initWorld_fields)
  have f: "filter (scheduledAt ?env ?cfg threeWallets 0 0) [0..<3] = [0, Suc (Suc 0)]"
    by (simp add: three_indices demo_mixed_scheduled)
  have n: "timers (fst (runAutoBuy ?env ?cfg initWorld)) = [?tA, ?tD]"
    by (simp add: demo_mixed_wallets)
  have m: "map (timerAt ?env ?cfg threeWallets 0 0) [0, Suc (Suc 0)] = [?tA, ?tD]"
    using t [THEN conjunct2, THEN conjunct2, THEN conjunct1]
    by (simp only: n demoConfigFor_fields threeWallets_fields initWorld_fields f append_Nil)
  have d: "map due [?tA, ?tD] = [1345, 3223]" by (simp add: due_def)
  from r1 c1 a1 f1 n1 m1 d1 r c a f n m d show ?thesis by (intro conjI)
qed

text \<open>
  C8. The snapshot at the end of the session is to be taken after the scheduled swaps
  have taken effect. In this run of the entrypoint (one wallet holding 1 SOL, every
  round trip 20 ms, every draw 1/2) the final snapshot is complete at 80 ms, and the
  entrypoint is at its end, while the only swap is due at 2610 ms: the final balance
  line repeats the initial one.
\<close>

theorem final_snapshot_precedes_swap:
  "exitCode (main (demoEnv 1000000000 (1 / 2)) (demoConfig (1 / 10)) initWorld) = None \<and>
   clock (main (demoEnv 1000000000 (1 / 2)) (demoConfig (1 / 10)) initWorld) = 80 \<and>
   map due (timers (main (demoEnv 1000000000 (1 / 2)) (demoConfig (1 / 10)) initWorld)) = [2610] \<and>
   console (main (demoEnv 1000000000 (1 / 2)) (demoConfig (1 / 10)) initWorld) =
     [Info ''Fetching initial balances...'', BalancesHeader, BalanceLine ''WalletA'' 1,
      BalancesFooter, Info ''Initializing Raydium SDK...'',
      Info ''Raydium SDK initialized successfully.'', Info ''Starting the auto-buy process...'',
      Starting 1, WillBuy ''WalletA'' (8962163258467287 / 2 ^ 53) 2550, Info ''Fetching final balances...'',
      BalancesHeader, BalanceLine ''WalletA'' 1, BalancesFooter]"
  by (simp add: demo_main due_def)

end
